theory Spec2Isabelle
  imports
    Main
    "HOL-Library.Sublist"
    "HOL-Library.AList"
    "HOL-Library.Char_ord"
    "HOL-Library.List_Lexorder"
begin

chapter \<open>The game synchroniser of scripts/sync-games.py\<close>

text \<open>
  A shallow embedding of the class \<^verbatim>\<open>GameDownloader\<close>: the tabular parser, the metadata
  merge, the archive pipeline (download, extract), the upload to the mirror and the
  reconciliation loop of \<^verbatim>\<open>download_and_process_games\<close>.  Every definition keeps the name of
  the method it embeds.  The first part holds the definitions, the second part the lemmas
  and theorems.
\<close>

section \<open>Python strings\<close>

text \<open>
  A Python \<^verbatim>\<open>str\<close> is a \<^typ>\<open>string\<close>; a HOL character stands for one code point below 256.
  \<^verbatim>\<open>s.split(sep)\<close> with a separator cuts at every occurrence of \<open>sep\<close>, scanning from the
  left without overlaps, and always returns at least one piece.  The separator is a
  non-empty constant at every call site (Python raises \<^verbatim>\<open>ValueError\<close> for an empty one).
\<close>

definition TAB :: char where
  "TAB = CHR 0x09"

definition CRLF :: string where
  "CRLF = [CHR 0x0D, CHR 0x0A]"

fun py_split :: "'a list \<Rightarrow> 'a list \<Rightarrow> 'a list list" where
  "py_split sep [] = [[]]"
| "py_split sep (c # cs) =
     (if sep \<noteq> [] \<and> prefix sep (c # cs) then [] # py_split sep (drop (length sep - 1) cs)
      else (case py_split sep cs of [] \<Rightarrow> [[c]] | l # ls \<Rightarrow> (c # l) # ls))"

text \<open>
  \<^verbatim>\<open>str.isspace\<close> on the code points below 256: the ASCII white space, the four
  separators 0x1C to 0x1F, NEL (0x85) and the no-break space (0xA0).  \<^verbatim>\<open>s.strip()\<close> removes
  such characters at both ends.
\<close>

definition py_isspace :: "char \<Rightarrow> bool" where
  "py_isspace c = (of_char c \<in> {9, 10, 11, 12, 13, 28, 29, 30, 31, 32, 133, 160 :: nat})"

definition py_strip :: "string \<Rightarrow> string" where
  "py_strip s = rev (dropWhile py_isspace (rev (dropWhile py_isspace s)))"

section \<open>parse_tsv\<close>

text \<open>
  A row is a Python dict from header names to cell texts, here a map.  \<open>fill_row\<close> is the
  inner loop \<^verbatim>\<open>for col, value in enumerate(values)\<close>, \<open>parse_rows\<close> the outer loop over
  \<^verbatim>\<open>lines[1:]\<close> with its \<^verbatim>\<open>continue\<close> on a line that is empty after \<^verbatim>\<open>strip()\<close>.
\<close>

fun fill_row :: "string list \<Rightarrow> nat \<Rightarrow> string list \<Rightarrow> (string \<rightharpoonup> string) \<Rightarrow> (string \<rightharpoonup> string)" where
  "fill_row headers col [] row = row"
| "fill_row headers col (v # values) row =
     fill_row headers (Suc col) values
       (if col < length headers then row(headers ! col \<mapsto> v) else row)"

fun parse_rows :: "string list \<Rightarrow> string list \<Rightarrow> (string \<rightharpoonup> string) list" where
  "parse_rows headers [] = []"
| "parse_rows headers (line # lines) =
     (if py_strip line = [] then parse_rows headers lines
      else fill_row headers 0 (py_split [TAB] line) Map.empty # parse_rows headers lines)"

definition parse_tsv :: "string \<Rightarrow> (string \<rightharpoonup> string) list" where
  "parse_tsv text =
     (case py_split CRLF text of
        [] \<Rightarrow> []
      | header_line # rest \<Rightarrow> parse_rows (py_split [TAB] header_line) rest)"

text \<open>A sheet of three columns with a short row, a blank line and a full row.\<close>

definition sample_tsv :: string where
  "sample_tsv = ''id'' @ [TAB] @ ''name'' @ [TAB] @ ''lang'' @ CRLF @
                ''x'' @ [TAB] @ ''Foo'' @ CRLF @
                CRLF @
                ''y'' @ [TAB] @ ''Bar'' @ [TAB] @ ''de''"

section \<open>Metadata records\<close>

text \<open>
  The values that reach a metadata record: what \<^verbatim>\<open>json.load\<close> produces and what the
  loaders pass.  A dict is an association list in insertion order; \<open>AList.update\<close> is
  the assignment \<^verbatim>\<open>d[k] = v\<close>.  \<open>truthy\<close> is the truth value Python gives a value in a
  condition.
\<close>

datatype pyval =
    PNone
  | PBool bool
  | PInt int
  | PStr string
  | PList "pyval list"
  | PDict "(string \<times> pyval) list"

type_synonym pydict = "(string \<times> pyval) list"

fun truthy :: "pyval \<Rightarrow> bool" where
  "truthy PNone = False"
| "truthy (PBool b) = b"
| "truthy (PInt i) = (i \<noteq> 0)"
| "truthy (PStr s) = (s \<noteq> [])"
| "truthy (PList xs) = (xs \<noteq> [])"
| "truthy (PDict d) = (d \<noteq> [])"

definition dict_get :: "pydict \<Rightarrow> string \<Rightarrow> pyval" where
  "dict_get d k = (case map_of d k of None \<Rightarrow> PNone | Some v \<Rightarrow> v)"

subsection \<open>_extract_languages\<close>




subsection \<open>add_or_update_game_metadata\<close>

text \<open>
  The search loop with its \<^verbatim>\<open>break\<close>: the first record whose \<^verbatim>\<open>relative_path\<close> equals the
  argument, with its index.  The relative path is a \<^verbatim>\<open>str\<close> at every call site.
\<close>

fun find_existing :: "pydict list \<Rightarrow> string \<Rightarrow> nat \<Rightarrow> (pydict \<times> nat) option" where
  "find_existing [] relative_path i = None"
| "find_existing (metadata # rest) relative_path i =
     (if dict_get metadata ''relative_path'' = PStr relative_path then Some (metadata, i)
      else find_existing rest relative_path (Suc i))"




section \<open>Paths\<close>

text \<open>
  A \<^verbatim>\<open>pathlib.Path\<close> is the list of its parts, as \<^verbatim>\<open>PurePosixPath.parts\<close> gives them: the
  root \<open>/\<close> (or \<open>//\<close> for exactly two leading slashes) first if the path is absolute, then
  the components, without the empty ones and without \<open>.\<close>; \<open>..\<close> is kept.  Paths are
  compared part by part, as pathlib compares them.  Symbolic links are outside the model.
\<close>

type_synonym path = "string list"

definition py_rfind :: "char \<Rightarrow> string \<Rightarrow> int" where
  "py_rfind c s =
     (if c \<in> set s then int (length s) - 1 - int (length (takeWhile (\<lambda>x. x \<noteq> c) (rev s)))
      else - 1)"

text \<open>The slice \<^verbatim>\<open>url[url.rfind('/') + 1:]\<close>.\<close>

definition after_last_slash :: "string \<Rightarrow> string" where
  "after_last_slash url = drop (nat (py_rfind CHR ''/'' url + 1)) url"

definition py_path :: "string \<Rightarrow> path" where
  "py_path s =
     (let comps = filter (\<lambda>c. c \<noteq> [] \<and> c \<noteq> ''.'') (py_split ''/'' s)
      in if prefix ''/'' s
         then (if prefix ''//'' s \<and> \<not> prefix ''///'' s then ''//'' else ''/'') # comps
         else comps)"

definition is_absolute :: "path \<Rightarrow> bool" where
  "is_absolute p = (case p of [] \<Rightarrow> False | c # cs \<Rightarrow> c = ''/'' \<or> c = ''//'')"

text \<open>\<^verbatim>\<open>p / s\<close> for a string \<open>s\<close>: an absolute right operand replaces the left one.\<close>

definition path_join :: "path \<Rightarrow> string \<Rightarrow> path" where
  "path_join p s = (if prefix ''/'' s then py_path s else p @ py_path s)"

definition is_anchor :: "path \<Rightarrow> bool" where
  "is_anchor p = (p = [] \<or> p = [''/''] \<or> p = [''//''])"

definition path_name :: "path \<Rightarrow> string" where
  "path_name p = (if is_anchor p then [] else last p)"

definition path_stem :: "path \<Rightarrow> string" where
  "path_stem p =
     (let name = path_name p; i = py_rfind CHR ''.'' name
      in if 0 < i \<and> i < int (length name) - 1 then take (nat i) name else name)"

definition path_parent :: "path \<Rightarrow> path" where
  "path_parent p = (if is_anchor p then p else butlast p)"

text \<open>
  \<^verbatim>\<open>p.relative_to(other)\<close>: the parts of \<open>p\<close> after those of \<open>other\<close>; \<^verbatim>\<open>ValueError\<close>
  (here \<open>None\<close>) when \<open>other\<close> is not a leading part of \<open>p\<close>.
\<close>

definition relative_to :: "path \<Rightarrow> path \<Rightarrow> path option" where
  "relative_to p other =
     (if other = [] then (if is_absolute p then None else Some p)
      else if prefix other p then Some (drop (length other) p)
      else None)"

section \<open>The local file system\<close>

text \<open>
  A file holds raw bytes or is a zip archive with its members in the order of the central
  directory.  The file system maps a path to the node there; the current directory and the
  root always exist.
\<close>

datatype zip_member = ZipInfo (member_filename: string) (member_data: string)

datatype file_data = Raw string | Archive "zip_member list"

datatype node = File file_data | Dir

type_synonym fs = "path \<rightharpoonup> node"

datatype error =
    OSError
  | BadZipFile
  | ValueError
  | TypeError
  | GameNotFound string
  | OrphanedFolders "string list"
  | ConnectionTimeout
  | FailedToConnect
  | RemoteCommandFailed nat
  | ErrorGettingFolders

definition node_at :: "fs \<Rightarrow> path \<Rightarrow> node option" where
  "node_at fs p = (if is_anchor p then Some Dir else fs p)"

definition path_exists :: "fs \<Rightarrow> path \<Rightarrow> bool" where
  "path_exists fs p = (node_at fs p \<noteq> None)"

definition is_dir :: "fs \<Rightarrow> path \<Rightarrow> bool" where
  "is_dir fs p = (node_at fs p = Some Dir)"

text \<open>\<^verbatim>\<open>Path.unlink\<close> removes a regular file and raises on anything else.\<close>

definition unlink :: "fs \<Rightarrow> path \<Rightarrow> error + fs" where
  "unlink fs p = (case node_at fs p of Some (File d) \<Rightarrow> Inr (fs(p := None)) | _ \<Rightarrow> Inl OSError)"

text \<open>\<^verbatim>\<open>shutil.rmtree\<close> removes a directory with everything below it.\<close>

definition rmtree :: "fs \<Rightarrow> path \<Rightarrow> error + fs" where
  "rmtree fs p =
     (if is_dir fs p then Inr (\<lambda>q. if prefix p q then None else fs q) else Inl OSError)"

text \<open>
  The pattern the reconciliation loop repeats for a local path:
  \<^verbatim>\<open>if p.exists(): (shutil.rmtree(p) if p.is_dir() else p.unlink())\<close>.
\<close>

definition remove_local :: "fs \<Rightarrow> path \<Rightarrow> error + fs" where
  "remove_local fs p =
     (if path_exists fs p then (if is_dir fs p then rmtree fs p else unlink fs p) else Inr fs)"

text \<open>
  \<^verbatim>\<open>p.mkdir(parents=True, exist_ok=True)\<close> (and \<^verbatim>\<open>os.makedirs\<close> on a path that does not
  exist): every leading part of \<open>p\<close> that is missing becomes a directory; a regular file in
  the way raises.
\<close>

fun mkdirs :: "fs \<Rightarrow> path list \<Rightarrow> error + fs" where
  "mkdirs fs [] = Inr fs"
| "mkdirs fs (q # qs) =
     (case node_at fs q of
        Some Dir \<Rightarrow> mkdirs fs qs
      | Some (File d) \<Rightarrow> Inl OSError
      | None \<Rightarrow> mkdirs (fs(q \<mapsto> Dir)) qs)"

definition mkdir_parents :: "fs \<Rightarrow> path \<Rightarrow> error + fs" where
  "mkdir_parents fs p = mkdirs fs (prefixes p)"

text \<open>
  Where the file system is handed a path with \<open>..\<close> in it, it walks the parts from the left
  and \<open>..\<close> leads to the directory above the one reached so far; above the root is the
  root, and above the current directory is a path of \<open>..\<close> parts.  The paths of the
  configuration carry no \<open>..\<close>; the member names of an archive may, so the branch of
  \<^verbatim>\<open>extract_zip\<close> that builds its targets from them goes through \<open>resolve_dots\<close>.
\<close>

definition up_from :: "path \<Rightarrow> path" where
  "up_from p =
     (if p = [''/''] \<or> p = [''//''] then p
      else if p = [] \<or> last p = ''..'' then p @ [''..'']
      else butlast p)"

definition resolve_dots :: "path \<Rightarrow> path" where
  "resolve_dots p = foldl (\<lambda>reached c. if c = ''..'' then up_from reached else reached @ [c]) [] p"

text \<open>
  \<^verbatim>\<open>open(p, 'wb')\<close> followed by the write: the parent must be a directory and \<open>p\<close> itself
  must not be one.
\<close>

definition write_file :: "fs \<Rightarrow> path \<Rightarrow> file_data \<Rightarrow> error + fs" where
  "write_file fs p d =
     (if is_dir fs (path_parent p) \<and> \<not> is_dir fs p then Inr (fs(p \<mapsto> File d)) else Inl OSError)"

text \<open>
  \<^verbatim>\<open>Path.rename\<close> of a regular file: it replaces a regular file at the destination and
  raises if the destination is a directory.  The only call renames the file that
  \<^verbatim>\<open>urlretrieve\<close> has just written, so a directory as source does not occur; it raises here.
\<close>

definition rename_file :: "fs \<Rightarrow> path \<Rightarrow> path \<Rightarrow> error + fs" where
  "rename_file fs src dst =
     (case node_at fs src of
        Some (File d) \<Rightarrow>
          if is_dir fs (path_parent dst) \<and> \<not> is_dir fs dst
          then Inr ((fs(src := None))(dst \<mapsto> File d))
          else Inl OSError
      | _ \<Rightarrow> Inl OSError)"

text \<open>The tree below a path, as \<^verbatim>\<open>scp -r\<close> copies it.\<close>

definition subtree :: "fs \<Rightarrow> path \<Rightarrow> fs" where
  "subtree fs p = (\<lambda>q. fs (p @ q))"

section \<open>The downloader, its environment and the state of a run\<close>

text \<open>
  The fields of \<^verbatim>\<open>self\<close> that the run reads: the download directory, the server and path
  of the mirror (\<open>None\<close> or empty when not given), the override document
  \<^verbatim>\<open>self.metadata\<close> and the catalog \<^verbatim>\<open>self.games_metadata\<close>.
\<close>

record downloader =
  download_dir :: path
  scp_server :: "string option"
  scp_path :: "string option"
  metadata :: "string \<rightharpoonup> pydict"
  games_metadata :: "pydict list"

text \<open>The test \<^verbatim>\<open>if not self.scp_server or not self.scp_path\<close>, negated.\<close>

definition configured :: "downloader \<Rightarrow> bool" where
  "configured D =
     ((case scp_server D of None \<Rightarrow> False | Some s \<Rightarrow> s \<noteq> []) \<and>
      (case scp_path D of None \<Rightarrow> False | Some s \<Rightarrow> s \<noteq> []))"

text \<open>\<^verbatim>\<open>self.metadata.get(target_name, {}).get("skip", False)\<close>, as a condition.\<close>

definition is_skipped :: "downloader \<Rightarrow> string \<Rightarrow> bool" where
  "is_skipped D target_name =
     (case metadata D target_name of
        None \<Rightarrow> False
      | Some entry \<Rightarrow> (case map_of entry ''skip'' of None \<Rightarrow> False | Some v \<Rightarrow> truthy v))"

text \<open>
  What the network and the mirror answer is a parameter: the outcome of fetching a URL
  (the data, or a failure that may leave a partial file), whether the \<open>n\<close>-th remote
  command of the run exits with status 0, what a failing copy leaves behind at its target,
  the directory listing of \<^verbatim>\<open>get_remote_folders\<close> (\<open>None\<close> when it raises), and the answer
  to a single \<^verbatim>\<open>test -d\<close> probe.  A process that cannot be started at all is outside the
  model.
\<close>

datatype fetch_result = Fetched file_data | FetchFailed "file_data option"

datatype probe_result = ProbeExit nat bool | ProbeTimeout

record env =
  fetch :: "string \<Rightarrow> fetch_result"
  succeeds :: "nat \<Rightarrow> bool"
  leftover :: "nat \<Rightarrow> fs option"
  listing :: "string set option"
  probe :: "string \<Rightarrow> probe_result"

text \<open>The lines written with \<^verbatim>\<open>self._print\<close>; progress lines and debugging output are left out.\<close>

datatype message =
    CleanedUpIncompleteDownload path
  | ErrorDownloading string
  | DirectoryAlreadyExists path
  | NoScpServerConfigured
  | SuccessfullyUploaded string
  | UploadFailed string
  | CleanedUpFailedUpload string
  | FoundRemoteFolders nat
  | ErrorGettingRemoteFolders
  | SkippingOnSkipFlag string
  | SkippedButOnRemote string
  | AlreadyOnRemote string
  | NoDownloadableUrl string
  | ReachedTransferLimit int
  | CleanedUpStaleTemp path
  | NoMetadataFound string
  | NoGamesProcessed
  | BuildingHttpIndex

text \<open>
  The commands that change the mirror, with names relative to the remote base path:
  \<^verbatim>\<open>rm -rf\<close>, \<^verbatim>\<open>scp -r\<close> of a local path, \<^verbatim>\<open>mv\<close>.
\<close>

datatype remote_cmd = RmRf string | ScpR path string | Mv string string

text \<open>
  The state: the local files, the entries of the mirror under the remote base path with
  the tree each holds, the remote commands issued so far, the printed lines,
  \<^verbatim>\<open>self.processed_games_metadata\<close>, and the three variables of
  \<^verbatim>\<open>download_and_process_games\<close> that live across its loop.
\<close>

record state =
  files :: fs
  remote :: "string \<rightharpoonup> fs"
  issued :: "remote_cmd list"
  printed :: "message list"
  processed_games_metadata :: "pydict list"
  remote_folders :: "string set"
  transfer_count :: nat
  any_uploads_occurred :: bool

definition pr :: "state \<Rightarrow> message \<Rightarrow> state" where
  "pr st m = st\<lparr>printed := printed st @ [m]\<rparr>"

section \<open>download_file\<close>

text \<open>
  \<^verbatim>\<open>urllib.request.urlretrieve(url, temp)\<close> with the URL encoding before it: the returned
  flag is false when any of it raised.  A failure of the transfer may leave a partial file.
\<close>

definition urlretrieve :: "env \<Rightarrow> fs \<Rightarrow> string \<Rightarrow> path \<Rightarrow> fs \<times> bool" where
  "urlretrieve E fs url temp =
     (case fetch E url of
        Fetched d \<Rightarrow> (case write_file fs temp d of Inl e \<Rightarrow> (fs, False) | Inr fs' \<Rightarrow> (fs', True))
      | FetchFailed None \<Rightarrow> (fs, False)
      | FetchFailed (Some part) \<Rightarrow>
          (case write_file fs temp part of Inl e \<Rightarrow> (fs, False) | Inr fs' \<Rightarrow> (fs', False)))"

text \<open>
  The \<^verbatim>\<open>except Exception\<close> clause: remove the temporary file if there is one, report, and
  fall off the end of the method, which returns \<^verbatim>\<open>None\<close>.  An exception raised inside the
  clause leaves the method.
\<close>

definition download_failed :: "state \<Rightarrow> string \<Rightarrow> path \<Rightarrow> error + state \<times> path option" where
  "download_failed st url temp_filepath =
     (if path_exists (files st) temp_filepath then
        (case unlink (files st) temp_filepath of
           Inl e \<Rightarrow> Inl e
         | Inr fs' \<Rightarrow>
             Inr (pr (pr (st\<lparr>files := fs'\<rparr>) (CleanedUpIncompleteDownload temp_filepath))
                    (ErrorDownloading url), None))
      else Inr (pr st (ErrorDownloading url), None))"

definition download_file ::
  "downloader \<Rightarrow> env \<Rightarrow> state \<Rightarrow> string \<Rightarrow> string \<Rightarrow> error + state \<times> path option" where
  "download_file D E st url filename =
     (let filepath = path_join (download_dir D) filename;
          temp_filepath = path_join (download_dir D) (filename @ ''.downloading'');
          (fs1, retrieved) = urlretrieve E (files st) url temp_filepath
      in if retrieved then
           (case rename_file fs1 temp_filepath filepath of
              Inr fs2 \<Rightarrow> Inr (st\<lparr>files := fs2\<rparr>, Some filepath)
            | Inl e \<Rightarrow> download_failed (st\<lparr>files := fs1\<rparr>) url temp_filepath)
         else download_failed (st\<lparr>files := fs1\<rparr>) url temp_filepath)"

section \<open>extract_zip\<close>

text \<open>
  The loop over \<^verbatim>\<open>namelist()\<close> that sorts the names outside \<open>__MACOSX/\<close> into root files
  (one part, not empty) and root folders (more than one part, the first not empty and the
  second empty, as in the directory entry \<open>Foo/\<close>).
\<close>

fun classify_names :: "string list \<Rightarrow> string list \<Rightarrow> string list \<Rightarrow> string list \<times> string list" where
  "classify_names [] root_files root_folders = (root_files, root_folders)"
| "classify_names (name # names) root_files root_folders =
     (if prefix ''__MACOSX/'' name then classify_names names root_files root_folders
      else
        (let parts = py_split ''/'' name
         in if length parts = 1 \<and> parts ! 0 \<noteq> []
            then classify_names names (root_files @ [name]) root_folders
            else if length parts > 1 \<and> parts ! 0 \<noteq> [] \<and> parts ! 1 = []
            then classify_names names root_files (root_folders @ [parts ! 0])
            else classify_names names root_files root_folders))"

text \<open>\<^verbatim>\<open>ZipInfo.is_dir\<close>: the name ends with a slash.\<close>

definition member_is_dir :: "zip_member \<Rightarrow> bool" where
  "member_is_dir m = suffix ''/'' (member_filename m)"

text \<open>
  The loop of the unwrapping branch over \<^verbatim>\<open>infolist()\<close>.  Directory entries and members
  whose first part is \<open>__MACOSX\<close> are skipped; every other member is written at
  \<open>extract_dir\<close> joined with its path relative to the single folder.  \<^verbatim>\<open>relative_to\<close> raises
  \<^verbatim>\<open>ValueError\<close> for a member outside that folder.  The relative path keeps the \<open>..\<close>
  parts of the member name, and nothing here removes them: \<^verbatim>\<open>mkdir(parents=True)\<close> makes
  the leading parts of the parent one after the other, each where the file system finds
  it, and \<^verbatim>\<open>open\<close> writes where the target path leads, which for the member
  \<open>Foo/../evil.txt\<close> is \<open>evil.txt\<close> beside \<open>extract_dir\<close>, not below it.
\<close>

definition member_skipped :: "zip_member \<Rightarrow> bool" where
  "member_skipped m =
     (member_is_dir m \<or>
      (case py_path (member_filename m) of [] \<Rightarrow> False | c # cs \<Rightarrow> c = ''__MACOSX''))"

fun unwrap_members :: "path \<Rightarrow> string \<Rightarrow> fs \<Rightarrow> zip_member list \<Rightarrow> error + fs" where
  "unwrap_members extract_dir single_folder fs [] = Inr fs"
| "unwrap_members extract_dir single_folder fs (m # ms) =
     (if member_skipped m then unwrap_members extract_dir single_folder fs ms
      else
        (case relative_to (py_path (member_filename m)) (py_path single_folder) of
           None \<Rightarrow> Inl ValueError
         | Some rel_path \<Rightarrow>
             (let target_path = extract_dir @ rel_path
              in case mkdirs fs (map resolve_dots (prefixes (path_parent target_path))) of
                   Inl e \<Rightarrow> Inl e
                 | Inr fs1 \<Rightarrow>
                     (case write_file fs1 (resolve_dots target_path) (Raw (member_data m)) of
                        Inl e \<Rightarrow> Inl e
                      | Inr fs2 \<Rightarrow> unwrap_members extract_dir single_folder fs2 ms))))"

text \<open>
  \<^verbatim>\<open>ZipFile.extractall\<close> of the standard library.  It walks \<^verbatim>\<open>namelist()\<close> and looks every
  name up with \<^verbatim>\<open>getinfo\<close>, which answers with the last member of that name.  The target of
  a member is its name below \<open>extract_dir\<close>, without the empty parts and without \<open>.\<close> and
  \<open>..\<close>; missing directories above it are created; a directory entry becomes a directory,
  any other member a file.
\<close>

definition arcname_parts :: "string \<Rightarrow> path" where
  "arcname_parts name =
     filter (\<lambda>x. x \<noteq> [] \<and> x \<noteq> ''.'' \<and> x \<noteq> ''..'') (py_split ''/'' name)"

definition getinfo :: "zip_member list \<Rightarrow> string \<Rightarrow> zip_member" where
  "getinfo members name = last (filter (\<lambda>m. member_filename m = name) members)"

definition extract_member :: "path \<Rightarrow> fs \<Rightarrow> zip_member \<Rightarrow> error + fs" where
  "extract_member extract_dir fs m =
     (let targetpath = extract_dir @ arcname_parts (member_filename m)
      in if member_is_dir m then mkdir_parents fs targetpath
         else (case mkdir_parents fs (path_parent targetpath) of
                 Inl e \<Rightarrow> Inl e
               | Inr fs1 \<Rightarrow> write_file fs1 targetpath (Raw (member_data m))))"

fun extract_names :: "path \<Rightarrow> zip_member list \<Rightarrow> fs \<Rightarrow> string list \<Rightarrow> error + fs" where
  "extract_names extract_dir members fs [] = Inr fs"
| "extract_names extract_dir members fs (name # names) =
     (case extract_member extract_dir fs (getinfo members name) of
        Inl e \<Rightarrow> Inl e
      | Inr fs1 \<Rightarrow> extract_names extract_dir members fs1 names)"

definition extractall :: "path \<Rightarrow> fs \<Rightarrow> zip_member list \<Rightarrow> error + fs" where
  "extractall extract_dir fs members =
     extract_names extract_dir members fs (map member_filename members)"

text \<open>
  The method.  It returns at once when \<open>extract_dir\<close> exists.  Otherwise it opens the
  archive (which raises if the path holds no zip file), extracts by one of the two
  branches, removes the archive and returns \<open>extract_dir\<close>.  \<^verbatim>\<open>list(set(root_folders))\<close>
  is the list without repetitions; only its length and, when that is one, its element are
  used.
\<close>

definition extract_zip :: "downloader \<Rightarrow> state \<Rightarrow> path \<Rightarrow> error + state \<times> path" where
  "extract_zip D st zip_path =
     (let extract_dir = path_join (download_dir D) (path_stem zip_path)
      in if path_exists (files st) extract_dir
         then Inr (pr st (DirectoryAlreadyExists extract_dir), extract_dir)
         else
           (case node_at (files st) zip_path of
              None \<Rightarrow> Inl OSError
            | Some Dir \<Rightarrow> Inl OSError
            | Some (File (Raw bytes)) \<Rightarrow> Inl BadZipFile
            | Some (File (Archive members)) \<Rightarrow>
                (let (root_files, root_folders) = classify_names (map member_filename members) [] [];
                     root_folders = remdups root_folders;
                     extracted =
                       (if root_files = [] \<and> length root_folders = 1
                        then unwrap_members extract_dir (root_folders ! 0 @ ''/'') (files st) members
                        else extractall extract_dir (files st) members)
                 in case extracted of
                      Inl e \<Rightarrow> Inl e
                    | Inr fs1 \<Rightarrow>
                        (case unlink fs1 zip_path of
                           Inl e \<Rightarrow> Inl e
                         | Inr fs2 \<Rightarrow> Inr (st\<lparr>files := fs2\<rparr>, extract_dir)))))"

section \<open>The mirror\<close>

text \<open>
  \<^verbatim>\<open>get_remote_folders\<close>: the empty set without a configured server, else the listing the
  environment gives, or an exception.
\<close>

definition get_remote_folders :: "downloader \<Rightarrow> env \<Rightarrow> error + string set" where
  "get_remote_folders D E =
     (if \<not> configured D then Inr {}
      else (case listing E of None \<Rightarrow> Inl ErrorGettingFolders | Some folders \<Rightarrow> Inr folders))"

text \<open>
  \<^verbatim>\<open>folder_exists_on_remote\<close>.  With a snapshot it answers from the snapshot and removes the
  name it found; the snapshot is returned updated.  Without one it probes the server:
  status 255 with a connection failure in the error output raises, 0 and 1 answer, any
  other status raises.
\<close>

definition folder_exists_on_remote ::
  "downloader \<Rightarrow> env \<Rightarrow> string \<Rightarrow> string set option \<Rightarrow> error + bool \<times> string set option" where
  "folder_exists_on_remote D E folder_name remote_folders_set =
     (if \<not> configured D then Inr (False, remote_folders_set)
      else
        (case remote_folders_set of
           Some folders \<Rightarrow>
             if folder_name \<in> folders then Inr (True, Some (folders - {folder_name}))
             else Inr (False, Some folders)
         | None \<Rightarrow>
             (case probe E folder_name of
                ProbeTimeout \<Rightarrow> Inl ConnectionTimeout
              | ProbeExit returncode connection_failure \<Rightarrow>
                  if returncode = 255 \<and> connection_failure then Inl FailedToConnect
                  else if returncode = 0 \<or> returncode = 1 then Inr (returncode = 0, None)
                  else Inl (RemoteCommandFailed returncode))))"

text \<open>
  One remote command.  It is appended to the commands issued; the environment says whether
  it exits with status 0, and only then does it take effect.  \<^verbatim>\<open>rm -rf\<close> removes the entry.
  \<^verbatim>\<open>scp -r\<close> needs the local path to exist; it creates the target entry as a copy of the
  local tree, or copies into the target under the local name if the target is an existing
  directory; a failing copy may leave a partial entry.  \<^verbatim>\<open>mv\<close> needs its source; it renames
  the source to the target, or moves it into the target if that is an existing directory.
\<close>

definition put_into :: "fs \<Rightarrow> string \<Rightarrow> fs \<Rightarrow> fs" where
  "put_into old name new = (\<lambda>q. case q of [] \<Rightarrow> old [] | c # r \<Rightarrow> if c = name then new r else old q)"

definition place :: "(string \<rightharpoonup> fs) \<Rightarrow> string \<Rightarrow> string \<Rightarrow> fs \<Rightarrow> (string \<rightharpoonup> fs) option" where
  "place entries target name tree =
     (case entries target of
        None \<Rightarrow> Some (entries(target \<mapsto> tree))
      | Some old \<Rightarrow>
          if old [] = Some Dir then Some (entries(target \<mapsto> put_into old name tree)) else None)"

definition run_remote :: "env \<Rightarrow> state \<Rightarrow> remote_cmd \<Rightarrow> state \<times> bool" where
  "run_remote E st cmd =
     (let ok = succeeds E (length (issued st));
          st' = st\<lparr>issued := issued st @ [cmd]\<rparr>
      in case cmd of
           RmRf name \<Rightarrow>
             if ok then (st'\<lparr>remote := (remote st)(name := None)\<rparr>, True) else (st', False)
         | ScpR src target \<Rightarrow>
             if \<not> path_exists (files st) src then (st', False)
             else if ok then
               (case place (remote st) target (path_name src) (subtree (files st) src) of
                  None \<Rightarrow> (st', False)
                | Some entries \<Rightarrow> (st'\<lparr>remote := entries\<rparr>, True))
             else
               (case leftover E (length (issued st)) of
                  None \<Rightarrow> (st', False)
                | Some part \<Rightarrow> (st'\<lparr>remote := (remote st)(target \<mapsto> part)\<rparr>, False))
         | Mv src target \<Rightarrow>
             (case remote st src of
                None \<Rightarrow> (st', False)
              | Some tree \<Rightarrow>
                  if ok then
                    (case place ((remote st)(src := None)) target src tree of
                       None \<Rightarrow> (st', False)
                     | Some entries \<Rightarrow> (st'\<lparr>remote := entries\<rparr>, True))
                  else (st', False)))"

section \<open>upload_folder\<close>

text \<open>
  The \<^verbatim>\<open>except subprocess.CalledProcessError\<close> clause: report, remove the temporary name
  on the mirror (the outcome of that command is ignored), report, return \<^verbatim>\<open>False\<close>.
\<close>

definition upload_failed :: "env \<Rightarrow> state \<Rightarrow> string \<Rightarrow> string \<Rightarrow> state \<times> bool" where
  "upload_failed E st folder_name temp_name =
     (let (st1, ok) = run_remote E (pr st (UploadFailed folder_name)) (RmRf temp_name)
      in (pr st1 (CleanedUpFailedUpload temp_name), False))"

text \<open>
  The method: remove a stale temporary name (outcome ignored), copy the folder to the
  temporary name, move the temporary name to the final name.  The copy and the move run
  with \<^verbatim>\<open>check=True\<close>, so a status other than 0 raises \<^verbatim>\<open>CalledProcessError\<close>, which the
  clause above catches.
\<close>

definition upload_folder :: "downloader \<Rightarrow> env \<Rightarrow> state \<Rightarrow> path \<Rightarrow> state \<times> bool" where
  "upload_folder D E st folder_path =
     (if \<not> configured D then (pr st NoScpServerConfigured, False)
      else
        (let folder_name = path_name folder_path;
             temp_name = folder_name @ ''.uploading'';
             (st1, cleaned) = run_remote E st (RmRf temp_name);
             (st2, copied) = run_remote E st1 (ScpR folder_path temp_name)
         in if \<not> copied then upload_failed E st2 folder_name temp_name
            else
              (let (st3, moved) = run_remote E st2 (Mv temp_name folder_name)
               in if \<not> moved then upload_failed E st3 folder_name temp_name
                  else (pr st3 (SuccessfullyUploaded folder_name), True))))"

section \<open>download_and_process_games\<close>

text \<open>
  An entry of the unified list \<^verbatim>\<open>all_games_to_process\<close>.  An entry that comes from a game
  id has the keys \<^verbatim>\<open>url\<close> and \<^verbatim>\<open>filename\<close>; an entry that the catalog merged or added has
  the key \<^verbatim>\<open>download_url\<close>; every entry has \<^verbatim>\<open>target_name\<close>.  The construction of the
  list from the game ids and the catalog is not part of the model: the run starts from the
  list.
\<close>

record game_data =
  gd_sheet :: "(string \<times> string) option"
  gd_download_url :: "string option"
  gd_target_name :: string

definition FRS :: string where
  "FRS = ''https://downloads.scummvm.org/frs''"

text \<open>
  The first lines of the loop body: \<^verbatim>\<open>has_scummvm_download\<close>, \<^verbatim>\<open>url\<close> and \<^verbatim>\<open>filename\<close>,
  the last two \<^verbatim>\<open>None\<close> where the source leaves them so.
\<close>

definition resolve_download :: "game_data \<Rightarrow> bool \<times> string option \<times> string option" where
  "resolve_download game =
     (case gd_sheet game of
        Some (url, filename) \<Rightarrow> (prefix FRS url, Some url, Some filename)
      | None \<Rightarrow>
          (case gd_download_url game of
             None \<Rightarrow> (False, None, None)
           | Some download_url \<Rightarrow>
               if download_url = [] then (False, None, None)
               else if prefix ''/frs'' download_url
               then (let url = ''https://downloads.scummvm.org'' @ download_url
                     in (True, Some url, Some (after_last_slash url)))
               else if prefix FRS download_url
               then (True, Some download_url, Some (after_last_slash download_url))
               else (False, None, None)))"

text \<open>
  The clean-up of the two branches for a game that is on the mirror: when the game has a
  download and a non-empty file name, remove the local folder and the local archive.
\<close>

definition clean_local_copies ::
  "downloader \<Rightarrow> fs \<Rightarrow> bool \<Rightarrow> string option \<Rightarrow> string \<Rightarrow> error + fs" where
  "clean_local_copies D fs has_scummvm_download filename target_name =
     (case filename of
        None \<Rightarrow> Inr fs
      | Some name \<Rightarrow>
          if has_scummvm_download \<and> name \<noteq> [] then
            (let local_folder_path = path_join (download_dir D) target_name;
                 local_zip_path = path_join (download_dir D) name
             in case remove_local fs local_folder_path of
                  Inl e \<Rightarrow> Inl e
                | Inr fs1 \<Rightarrow>
                    if path_exists fs1 local_zip_path then unlink fs1 local_zip_path else Inr fs1)
          else Inr fs)"

text \<open>
  The end of the loop body: with \<^verbatim>\<open>should_process_metadata\<close> set, the first record of the
  catalog whose \<^verbatim>\<open>relative_path\<close> is the target name is appended to the processed list, and
  a warning is printed if there is none.
\<close>

definition add_to_processed :: "downloader \<Rightarrow> state \<Rightarrow> bool \<Rightarrow> string \<Rightarrow> state" where
  "add_to_processed D st should_process_metadata target_name =
     (if should_process_metadata then
        (case find_existing (games_metadata D) target_name 0 of
           Some (game_metadata, i) \<Rightarrow>
             if game_metadata \<noteq> []
             then st\<lparr>processed_games_metadata := processed_games_metadata st @ [game_metadata]\<rparr>
             else pr st (NoMetadataFound target_name)
         | None \<Rightarrow> pr st (NoMetadataFound target_name))
      else st)"

definition count_transfer :: "state \<Rightarrow> state" where
  "count_transfer st = st\<lparr>transfer_count := transfer_count st + 1, any_uploads_occurred := True\<rparr>"

text \<open>
  The branch for a game that is not on the mirror and has a download, from the test of the
  transfer limit on, in four pieces.  The first: the extracted folder is already there; it
  is uploaded if transfers are allowed, \<^verbatim>\<open>should_process_metadata\<close> is set and the folder
  is removed.
\<close>

definition upload_local_folder ::
  "downloader \<Rightarrow> env \<Rightarrow> bool \<Rightarrow> state \<Rightarrow> path \<Rightarrow> error + state \<times> bool" where
  "upload_local_folder D E allow_transfers st local_folder_path =
     (let (st1, uploaded) = (if allow_transfers then upload_folder D E st local_folder_path
                             else (st, False));
          st2 = (if uploaded then count_transfer st1 else st1)
      in case remove_local (files st2) local_folder_path of
           Inl e \<Rightarrow> Inl e
         | Inr fs' \<Rightarrow> Inr (st2\<lparr>files := fs'\<rparr>, True))"

text \<open>The second: a stale temporary download is removed.\<close>

definition clean_stale_temp :: "state \<Rightarrow> path \<Rightarrow> error + state" where
  "clean_stale_temp st temp_file_path =
     (if path_exists (files st) temp_file_path then
        (case unlink (files st) temp_file_path of
           Inl e \<Rightarrow> Inl e
         | Inr fs' \<Rightarrow> Inr (pr (st\<lparr>files := fs'\<rparr>) (CleanedUpStaleTemp temp_file_path)))
      else Inr st)"

text \<open>
  The third, with transfers allowed: download unless the file is there, and for a zip file
  extract and upload; \<^verbatim>\<open>should_process_metadata\<close> is set.  Passing the \<^verbatim>\<open>None\<close> of a failed
  download to \<^verbatim>\<open>extract_zip\<close> raises \<^verbatim>\<open>TypeError\<close> in \<^verbatim>\<open>Path(zip_path)\<close>.
\<close>

definition download_and_upload ::
  "downloader \<Rightarrow> env \<Rightarrow> state \<Rightarrow> string \<Rightarrow> string \<Rightarrow> path \<Rightarrow> error + state \<times> bool" where
  "download_and_upload D E st url filename file_path =
     (case (if \<not> path_exists (files st) file_path then download_file D E st url filename
            else Inr (st, Some file_path)) of
        Inl e \<Rightarrow> Inl e
      | Inr (st1, downloaded_file) \<Rightarrow>
          if suffix ''.zip'' filename then
            (case downloaded_file of
               None \<Rightarrow> Inl TypeError
             | Some zip_path \<Rightarrow>
                 (case extract_zip D st1 zip_path of
                    Inl e \<Rightarrow> Inl e
                  | Inr (st2, extracted_folder) \<Rightarrow>
                      (let (st3, uploaded) = upload_folder D E st2 extracted_folder
                       in Inr (if uploaded then count_transfer st3 else st3, True))))
          else Inr (st1, True))"

text \<open>
  The fourth, with transfers not allowed: the local file, the local folder and the local
  archive are removed; \<^verbatim>\<open>should_process_metadata\<close> stays unset.
\<close>

definition discard_local_files :: "fs \<Rightarrow> path \<Rightarrow> path \<Rightarrow> path option \<Rightarrow> error + fs" where
  "discard_local_files fs file_path local_folder_path local_zip_path =
     (case (if path_exists fs file_path then unlink fs file_path else Inr fs) of
        Inl e \<Rightarrow> Inl e
      | Inr fs1 \<Rightarrow>
          (case remove_local fs1 local_folder_path of
             Inl e \<Rightarrow> Inl e
           | Inr fs2 \<Rightarrow>
               (case local_zip_path of
                  None \<Rightarrow> Inr fs2
                | Some zip_path \<Rightarrow>
                    if path_exists fs2 zip_path then unlink fs2 zip_path else Inr fs2)))"

definition transfer_game ::
  "downloader \<Rightarrow> env \<Rightarrow> int option \<Rightarrow> state \<Rightarrow> string \<Rightarrow> string \<Rightarrow> string \<Rightarrow> error + state \<times> bool" where
  "transfer_game D E max_transfers st0 url filename target_name =
     (let local_folder_path = path_join (download_dir D) target_name;
          local_zip_path = (if suffix ''.zip'' filename
                            then Some (path_join (download_dir D) filename) else None);
          allow_transfers = (case max_transfers of
                               None \<Rightarrow> True
                             | Some limit \<Rightarrow> int (transfer_count st0) < limit);
          st = (if allow_transfers then st0
                else pr st0 (ReachedTransferLimit (case max_transfers of None \<Rightarrow> 0 | Some limit \<Rightarrow> limit)))
      in if suffix ''.zip'' filename \<and> path_exists (files st) local_folder_path then
           upload_local_folder D E allow_transfers st local_folder_path
         else
           (let file_path = path_join (download_dir D) filename;
                temp_file_path = path_join (download_dir D) (filename @ ''.downloading'')
            in case clean_stale_temp st temp_file_path of
                 Inl e \<Rightarrow> Inl e
               | Inr st1 \<Rightarrow>
                   if allow_transfers then download_and_upload D E st1 url filename file_path
                   else
                     (case discard_local_files (files st1) file_path local_folder_path
                             local_zip_path of
                        Inl e \<Rightarrow> Inl e
                      | Inr fs' \<Rightarrow> Inr (st1\<lparr>files := fs'\<rparr>, False))))"

text \<open>
  The two branches for a game that is on the mirror do the same after their message: set
  \<^verbatim>\<open>should_process_metadata\<close> and clean the local copies.
\<close>

definition include_remote_game ::
  "downloader \<Rightarrow> state \<Rightarrow> bool \<Rightarrow> string option \<Rightarrow> string \<Rightarrow> error + state" where
  "include_remote_game D st has_scummvm_download filename target_name =
     (case clean_local_copies D (files st) has_scummvm_download filename target_name of
        Inl e \<Rightarrow> Inl e
      | Inr fs' \<Rightarrow> Inr (add_to_processed D (st\<lparr>files := fs'\<rparr>) True target_name))"

text \<open>
  The loop body for one entry.  The variables \<^verbatim>\<open>url\<close> and \<^verbatim>\<open>filename\<close> are set wherever
  \<^verbatim>\<open>has_scummvm_download\<close> holds; the branch for the opposite is there for totality only.
\<close>

definition process_game ::
  "downloader \<Rightarrow> env \<Rightarrow> int option \<Rightarrow> state \<Rightarrow> game_data \<Rightarrow> error + state" where
  "process_game D E max_transfers st0 game =
     (let (has_scummvm_download, url, filename) = resolve_download game;
          target_name = gd_target_name game
      in case folder_exists_on_remote D E target_name (Some (remote_folders st0)) of
           Inl e \<Rightarrow> Inl e
         | Inr (exists_on_remote, folders) \<Rightarrow>
             (let st = st0\<lparr>remote_folders := (case folders of None \<Rightarrow> remote_folders st0
                                                | Some s \<Rightarrow> s)\<rparr>
              in if is_skipped D target_name \<and> \<not> exists_on_remote then
                   Inr (add_to_processed D (pr st (SkippingOnSkipFlag target_name)) False target_name)
                 else if is_skipped D target_name \<and> exists_on_remote then
                   include_remote_game D (pr st (SkippedButOnRemote target_name))
                     has_scummvm_download filename target_name
                 else if exists_on_remote then
                   include_remote_game D (pr st (AlreadyOnRemote target_name))
                     has_scummvm_download filename target_name
                 else if \<not> has_scummvm_download then Inl (GameNotFound target_name)
                 else
                   (case (url, filename) of
                      (Some u, Some f) \<Rightarrow>
                        (case transfer_game D E max_transfers st u f target_name of
                           Inl e \<Rightarrow> Inl e
                         | Inr (st1, should_process_metadata) \<Rightarrow>
                             Inr (add_to_processed D st1 should_process_metadata target_name))
                    | _ \<Rightarrow> Inl TypeError)))"

text \<open>The \<^verbatim>\<open>for\<close> loop: an exception ends it.\<close>

fun process_games ::
  "downloader \<Rightarrow> env \<Rightarrow> int option \<Rightarrow> state \<Rightarrow> game_data list \<Rightarrow> error + state" where
  "process_games D E max_transfers st [] = Inr st"
| "process_games D E max_transfers st (game # games) =
     (case process_game D E max_transfers st game of
        Inl e \<Rightarrow> Inl e
      | Inr st1 \<Rightarrow> process_games D E max_transfers st1 games)"

text \<open>
  The check after the loop: names left in the snapshot are reported one by one, in sorted
  order, and the exception carries all of them.
\<close>

definition check_orphans :: "state \<Rightarrow> error + state" where
  "check_orphans st =
     (if remote_folders st \<noteq> {} then
        Inl (OrphanedFolders (sorted_list_of_set (remote_folders st)))
      else Inr st)"

text \<open>
  The method, from the listing of the mirror to the check for orphans.  When the listing
  raises, the method prints and returns.  After the check the method writes the export from
  \<^verbatim>\<open>self.processed_games_metadata\<close> (unless that is empty) and rebuilds the index of the
  mirror; both catch their own exceptions and are not modelled beyond the lines they print
  here.
\<close>

definition start_run :: "state \<Rightarrow> string set \<Rightarrow> state" where
  "start_run st0 folders =
     (pr st0 (FoundRemoteFolders (card folders)))
       \<lparr>remote_folders := folders, transfer_count := 0, any_uploads_occurred := False\<rparr>"

definition download_and_process_games ::
  "downloader \<Rightarrow> env \<Rightarrow> state \<Rightarrow> game_data list \<Rightarrow> int option \<Rightarrow> error + state" where
  "download_and_process_games D E st0 all_games_to_process max_transfers =
     (case get_remote_folders D E of
        Inl e \<Rightarrow> Inr (pr st0 ErrorGettingRemoteFolders)
      | Inr folders \<Rightarrow>
          (case process_games D E max_transfers (start_run st0 folders) all_games_to_process of
             Inl e \<Rightarrow> Inl e
           | Inr st1 \<Rightarrow>
               (case check_orphans st1 of
                  Inl e \<Rightarrow> Inl e
                | Inr st2 \<Rightarrow>
                    Inr (pr (if processed_games_metadata st2 \<noteq> [] then st2
                             else pr st2 NoGamesProcessed) BuildingHttpIndex))))"

section \<open>Sample data\<close>

text \<open>
  A downloader with a configured mirror, whose override document marks \<open>B\<close> and \<open>C\<close> to
  be skipped; an environment in which the mirror lists \<open>A\<close> and \<open>B\<close>, every remote command
  succeeds and every download fails; an empty state and a state with local leftovers of
  \<open>B\<close>; a few entries of the unified list.
\<close>

definition sample_downloader :: downloader where
  "sample_downloader =
     \<lparr>download_dir = [''games''],
      scp_server = Some ''sync@mirror'',
      scp_path = Some ''/srv/games'',
      metadata = [''B'' \<mapsto> [(''skip'', PBool True)], ''C'' \<mapsto> [(''skip'', PBool True)]],
      games_metadata =
        [[(''id'', PStr ''eng:a''), (''relative_path'', PStr ''A''), (''description'', PStr ''Game A'')],
         [(''id'', PStr ''eng:b''), (''relative_path'', PStr ''B''), (''description'', PStr ''Game B'')],
         [(''id'', PStr ''eng:foo''), (''relative_path'', PStr ''Foo''), (''description'', PStr ''Foo'')]]\<rparr>"

definition sample_env :: env where
  "sample_env =
     \<lparr>fetch = (\<lambda>url. FetchFailed None),
      succeeds = (\<lambda>n. True),
      leftover = (\<lambda>n. None),
      listing = Some {''A'', ''B''},
      probe = (\<lambda>name. ProbeTimeout)\<rparr>"

definition empty_state :: state where
  "empty_state =
     \<lparr>files = Map.empty, remote = Map.empty, issued = [], printed = [],
      processed_games_metadata = [], remote_folders = {}, transfer_count = 0,
      any_uploads_occurred = False\<rparr>"

definition stale_state :: state where
  "stale_state =
     \<lparr>files = [[''games''] \<mapsto> Dir, [''games'', ''B''] \<mapsto> Dir,
               [''games'', ''B'', ''game.dat''] \<mapsto> File (Raw ''data''),
               [''games'', ''B.zip''] \<mapsto> File (Archive [])],
      remote = Map.empty, issued = [], printed = [],
      processed_games_metadata = [], remote_folders = {''A'', ''B''}, transfer_count = 0,
      any_uploads_occurred = False\<rparr>"

definition game_A :: game_data where
  "game_A = \<lparr>gd_sheet = Some (FRS @ ''/extras/A.zip'', ''A.zip''), gd_download_url = None,
             gd_target_name = ''A''\<rparr>"

definition game_B :: game_data where
  "game_B = \<lparr>gd_sheet = Some (FRS @ ''/extras/B.zip'', ''B.zip''), gd_download_url = None,
             gd_target_name = ''B''\<rparr>"

definition game_C :: game_data where
  "game_C = \<lparr>gd_sheet = Some (FRS @ ''/extras/C.zip'', ''C.zip''), gd_download_url = None,
             gd_target_name = ''C''\<rparr>"

definition game_without_url :: game_data where
  "game_without_url = \<lparr>gd_sheet = None, gd_download_url = Some [], gd_target_name = ''X''\<rparr>"


definition folder_there_state :: state where
  "folder_there_state =
     \<lparr>files = [[''games''] \<mapsto> Dir, [''games'', ''Foo''] \<mapsto> Dir,
               [''games'', ''Foo.zip''] \<mapsto> File (Archive [ZipInfo ''a.txt'' ''A''])],
      remote = Map.empty, issued = [], printed = [],
      processed_games_metadata = [], remote_folders = {}, transfer_count = 0,
      any_uploads_occurred = False\<rparr>"

definition rename_fails_env :: env where
  "rename_fails_env = sample_env\<lparr>succeeds := (\<lambda>n. n \<noteq> 2)\<rparr>"





chapter \<open>Lemmas and theorems\<close>

section \<open>parse_tsv\<close>

lemma py_split_nonempty: "py_split sep s \<noteq> []"
  by (induction s) (auto split: list.splits)

lemma fill_row_zip:
  "fill_row hs c vs row = row ++ map_of (rev (zip (drop c hs) vs))"
proof (induction vs arbitrary: c row)
  case Nil
  then show ?case by simp
next
  case (Cons v vs)
  show ?case
  proof (cases "c < length hs")
    case True
    then have d: "drop c hs = hs ! c # drop (Suc c) hs"
      by (simp add: Cons_nth_drop_Suc)
    show ?thesis
      using True by (auto simp: Cons d map_add_def fun_eq_iff split: option.splits)
  next
    case False
    then show ?thesis by (simp add: Cons)
  qed
qed

lemma parse_rows_filter:
  "parse_rows hs ls =
     map (\<lambda>l. fill_row hs 0 (py_split [TAB] l) Map.empty) (filter (\<lambda>l. py_strip l \<noteq> []) ls)"
  by (induction ls) auto

lemma map_of_rev_zip_dom:
  "dom (map_of (rev (zip hs vs))) = set (take (length vs) hs)"
proof -
  have "dom (map_of (rev (zip hs vs))) = fst ` set (zip hs vs)"
    by (simp add: dom_map_of_conv_image_fst)
  also have "\<dots> = set (map fst (zip hs vs))"
    by simp
  also have "map fst (zip hs vs) = take (length vs) hs"
    by (rule map_fst_zip_take [THEN trans]) (simp add: min_def)
  finally show ?thesis .
qed

lemma map_of_rev_zip_last:
  "col < length vs \<Longrightarrow> col < length hs \<Longrightarrow>
   hs ! col \<notin> set (drop (Suc col) (take (length vs) hs)) \<Longrightarrow>
   map_of (rev (zip hs vs)) (hs ! col) = Some (vs ! col)"
proof (induction vs arbitrary: hs col)
  case Nil
  then show ?case by simp
next
  case (Cons v vs)
  then obtain h hs' where hs: "hs = h # hs'"
    by (cases hs) auto
  show ?case
  proof (cases col)
    case 0
    with Cons.prems hs have "h \<notin> dom (map_of (rev (zip hs' vs)))"
      by (simp add: map_of_rev_zip_dom)
    then show ?thesis
      using 0 hs by (auto simp: map_add_def domIff split: option.splits)
  next
    case (Suc c)
    with Cons.prems hs have "map_of (rev (zip hs' vs)) (hs' ! c) = Some (vs ! c)"
      by (intro Cons.IH) auto
    then show ?thesis
      using Suc hs by (simp add: map_add_def)
  qed
qed

lemma map_of_rev_zip_none:
  "hs ! col \<notin> set (take (length vs) hs) \<Longrightarrow> map_of (rev (zip hs vs)) (hs ! col) = None"
  using map_of_rev_zip_dom [of hs vs] by (auto simp: domIff)

text \<open>
  Claim C9.  The first line of the text (lines end at CR LF) is the header row.  Every
  later line that is not blank gives one record, in order, and blank lines give none.  The
  record of a line holds exactly the header names of the columns the line has a value for:
  a column beyond the end of a short row adds no key, so a missing trailing field is absent
  and not an empty string.  The value under a header name is the cell at that header's
  position (at the last such position, should a header name occur twice within the row).
  The empty text gives the empty sequence.
\<close>

theorem parse_tsv_positional:
  "(let lines = py_split CRLF text;
        headers = py_split [TAB] (hd lines);
        body = filter (\<lambda>line. py_strip line \<noteq> []) (tl lines);
        rows = parse_tsv text
    in length rows = length body \<and>
       (\<forall>i < length body.
          let values = py_split [TAB] (body ! i); row = rows ! i
          in dom row = set (take (length values) headers) \<and>
             (\<forall>col < length values. col < length headers \<longrightarrow>
                headers ! col \<notin> set (drop (Suc col) (take (length values) headers)) \<longrightarrow>
                row (headers ! col) = Some (values ! col)) \<and>
             (\<forall>col < length headers. length values \<le> col \<longrightarrow>
                headers ! col \<notin> set (take (length values) headers) \<longrightarrow>
                row (headers ! col) = None))) \<and>
   parse_tsv [] = []"
proof -
  obtain l0 rest where sp: "py_split CRLF text = l0 # rest"
    using py_split_nonempty [of CRLF "text"] by (cases "py_split CRLF text") auto
  define hs where "hs = py_split [TAB] l0"
  define body where "body = filter (\<lambda>line. py_strip line \<noteq> []) rest"
  have rows: "parse_tsv text = map (\<lambda>l. map_of (rev (zip hs (py_split [TAB] l)))) body"
    by (simp add: parse_tsv_def sp parse_rows_filter fill_row_zip hs_def body_def)
  have e: "parse_tsv [] = []"
    by (simp add: parse_tsv_def CRLF_def)
  show ?thesis
    unfolding Let_def sp list.sel hs_def [symmetric] body_def [symmetric]
    by (intro conjI allI impI)
       (simp_all add: rows e map_of_rev_zip_dom map_of_rev_zip_last map_of_rev_zip_none)
qed

lemma sample_lines:
  "py_split CRLF sample_tsv =
     [''id'' @ [TAB] @ ''name'' @ [TAB] @ ''lang'', ''x'' @ [TAB] @ ''Foo'', [],
      ''y'' @ [TAB] @ ''Bar'' @ [TAB] @ ''de'']"
  by (simp add: sample_tsv_def CRLF_def TAB_def)

text \<open>
  On the sample sheet: two records; the short row has the keys \<open>id\<close> and \<open>name\<close> only, so
  \<open>lang\<close> is absent, and the full row has \<open>lang\<close>.
\<close>

theorem parse_tsv_positional_witness:
  "length (parse_tsv sample_tsv) = 2 \<and>
   dom (parse_tsv sample_tsv ! 0) = {''id'', ''name''} \<and>
   (parse_tsv sample_tsv ! 0) ''id'' = Some ''x'' \<and>
   (parse_tsv sample_tsv ! 0) ''name'' = Some ''Foo'' \<and>
   (parse_tsv sample_tsv ! 0) ''lang'' = None \<and>
   (parse_tsv sample_tsv ! 1) ''lang'' = Some ''de''"
proof -
  have body: "filter (\<lambda>line. py_strip line \<noteq> []) (tl (py_split CRLF sample_tsv)) =
      [''x'' @ [TAB] @ ''Foo'', ''y'' @ [TAB] @ ''Bar'' @ [TAB] @ ''de'']"
    by (simp add: sample_lines py_strip_def py_isspace_def TAB_def)
  have hs: "py_split [TAB] (hd (py_split CRLF sample_tsv)) = [''id'', ''name'', ''lang'']"
    by (simp add: sample_lines TAB_def)
  have v0: "py_split [TAB] (''x'' @ [TAB] @ ''Foo'') = [''x'', ''Foo'']"
    by (simp add: TAB_def)
  have v1: "py_split [TAB] (''y'' @ [TAB] @ ''Bar'' @ [TAB] @ ''de'') = [''y'', ''Bar'', ''de'']"
    by (simp add: TAB_def)
  note py_split.simps [simp del]
  note t = parse_tsv_positional [of sample_tsv, unfolded Let_def body hs]
  note len = t [THEN conjunct1, THEN conjunct1]
  note row0 = t [THEN conjunct1, THEN conjunct2, rule_format, of 0, simplified]
  note row1 = t [THEN conjunct1, THEN conjunct2, rule_format, of 1, simplified]
  note dom0 = row0 [THEN conjunct1]
  note id0 = row0 [THEN conjunct2, THEN conjunct1, rule_format, of 0]
  note name0 = row0 [THEN conjunct2, THEN conjunct1, rule_format, of 1]
  note lang0 = row0 [THEN conjunct2, THEN conjunct2, rule_format, of 2]
  note lang1 = row1 [THEN conjunct2, THEN conjunct1, rule_format, of 2]
  from len dom0 id0 name0 lang0 lang1 show ?thesis
    by (simp add: v0 [simplified] v1 [simplified])
qed

section \<open>Metadata records: lemmas\<close>










section \<open>Frame lemmas\<close>

lemma case_sum_Inr_iff:
  "(case_sum Inl f m = Inr y) = (\<exists>x. m = Inr x \<and> f x = Inr y)"
  by (cases m) auto

lemma run_remote_frame:
  "run_remote E st cmd = (st', ok) \<Longrightarrow>
   files st' = files st \<and> remote_folders st' = remote_folders st \<and>
   transfer_count st' = transfer_count st \<and>
   processed_games_metadata st' = processed_games_metadata st \<and>
   issued st' = issued st @ [cmd]"
  by (auto simp: run_remote_def Let_def split: remote_cmd.splits if_splits option.splits)

lemma upload_failed_frame:
  "upload_failed E st folder_name temp_name = (st', ok) \<Longrightarrow>
   \<not> ok \<and> files st' = files st \<and> remote_folders st' = remote_folders st \<and>
   transfer_count st' = transfer_count st \<and>
   processed_games_metadata st' = processed_games_metadata st"
  by (auto simp: upload_failed_def Let_def pr_def split: prod.splits dest!: run_remote_frame)

lemma upload_folder_frame:
  "upload_folder D E st folder_path = (st', ok) \<Longrightarrow>
   files st' = files st \<and> remote_folders st' = remote_folders st \<and>
   transfer_count st' = transfer_count st \<and>
   processed_games_metadata st' = processed_games_metadata st"
  by (auto simp: upload_folder_def Let_def pr_def split: prod.splits if_splits
      dest!: run_remote_frame upload_failed_frame)

lemma download_file_frame:
  "download_file D E st url filename = Inr (st', r) \<Longrightarrow>
   remote st' = remote st \<and> issued st' = issued st \<and> remote_folders st' = remote_folders st \<and>
   transfer_count st' = transfer_count st \<and>
   processed_games_metadata st' = processed_games_metadata st"
  by (auto simp: download_file_def download_failed_def Let_def pr_def
      split: prod.splits if_splits sum.splits)

lemma extract_zip_frame:
  "extract_zip D st zip_path = Inr (st', r) \<Longrightarrow>
   remote st' = remote st \<and> issued st' = issued st \<and> remote_folders st' = remote_folders st \<and>
   transfer_count st' = transfer_count st \<and>
   processed_games_metadata st' = processed_games_metadata st"
  by (auto simp: extract_zip_def Let_def pr_def
      split: prod.splits if_splits sum.splits option.splits node.splits file_data.splits)

lemma add_to_processed_frame:
  "remote_folders (add_to_processed D st b t) = remote_folders st \<and>
   files (add_to_processed D st b t) = files st \<and>
   remote (add_to_processed D st b t) = remote st \<and>
   issued (add_to_processed D st b t) = issued st \<and>
   transfer_count (add_to_processed D st b t) = transfer_count st"
  by (auto simp: add_to_processed_def pr_def split: option.splits)


lemma upload_local_folder_frame:
  assumes "upload_local_folder D E allow st p = Inr (st', b)"
  shows "remote_folders st' = remote_folders st \<and>
         processed_games_metadata st' = processed_games_metadata st"
proof -
  obtain st1 uploaded where
    u: "(if allow then upload_folder D E st p else (st, False)) = (st1, uploaded)"
    by fastforce
  have f1: "remote_folders st1 = remote_folders st \<and>
            processed_games_metadata st1 = processed_games_metadata st"
    using u upload_folder_frame [of D E st p st1 uploaded] by (cases allow) auto
  have "upload_local_folder D E allow st p =
      (case remove_local (files (if uploaded then count_transfer st1 else st1)) p of
         Inl e \<Rightarrow> Inl e
       | Inr fs' \<Rightarrow> Inr ((if uploaded then count_transfer st1 else st1)\<lparr>files := fs'\<rparr>, True))"
    unfolding upload_local_folder_def u by (simp add: Let_def)
  with assms obtain fs' where
    "st' = (if uploaded then count_transfer st1 else st1)\<lparr>files := fs'\<rparr>"
    by (auto simp: case_sum_Inr_iff)
  with f1 show ?thesis
    by (simp add: count_transfer_def)
qed

lemma clean_stale_temp_frame:
  "clean_stale_temp st p = Inr st' \<Longrightarrow>
   remote st' = remote st \<and> issued st' = issued st \<and> remote_folders st' = remote_folders st \<and>
   transfer_count st' = transfer_count st \<and>
   processed_games_metadata st' = processed_games_metadata st"
  by (auto simp: clean_stale_temp_def pr_def split: if_splits sum.splits)

lemma download_and_upload_frame:
  assumes "download_and_upload D E st url filename p = Inr (st', b)"
  shows "remote_folders st' = remote_folders st \<and>
         processed_games_metadata st' = processed_games_metadata st"
proof -
  from assms obtain st1 df where
    d: "(if \<not> path_exists (files st) p then download_file D E st url filename
         else Inr (st, Some p)) = Inr (st1, df)"
    and r: "(if suffix ''.zip'' filename then
             (case df of
                None \<Rightarrow> Inl TypeError
              | Some zip_path \<Rightarrow>
                  (case extract_zip D st1 zip_path of
                     Inl e \<Rightarrow> Inl e
                   | Inr (st2, extracted_folder) \<Rightarrow>
                       (let (st3, uploaded) = upload_folder D E st2 extracted_folder
                        in Inr (if uploaded then count_transfer st3 else st3, True))))
           else Inr (st1, True)) = Inr (st', b)"
    unfolding download_and_upload_def case_sum_Inr_iff by auto
  have f1: "remote_folders st1 = remote_folders st \<and>
            processed_games_metadata st1 = processed_games_metadata st"
    using d download_file_frame [of D E st url filename st1 df]
    by (cases "path_exists (files st) p") auto
  show ?thesis
  proof (cases "suffix ''.zip'' filename")
    case False
    with r f1 show ?thesis by simp
  next
    case True
    with r obtain zip_path where df: "df = Some zip_path"
      by (cases df) auto
    from r True df have "\<exists>st2 folder. extract_zip D st1 zip_path = Inr (st2, folder) \<and>
        (case upload_folder D E st2 folder of (st3, uploaded) \<Rightarrow>
           Inr (if uploaded then count_transfer st3 else st3, True)) =
          (Inr (st', b) :: error + state \<times> bool)"
      by (simp add: case_sum_Inr_iff)
    then obtain st2 folder where x: "extract_zip D st1 zip_path = Inr (st2, folder)"
      and r2: "(case upload_folder D E st2 folder of (st3, uploaded) \<Rightarrow>
                  Inr (if uploaded then count_transfer st3 else st3, True)) =
                 (Inr (st', b) :: error + state \<times> bool)"
      by blast
    obtain st3 uploaded where up: "upload_folder D E st2 folder = (st3, uploaded)"
      by fastforce
    from r2 have st': "st' = (if uploaded then count_transfer st3 else st3)"
      by (simp add: up)
    from extract_zip_frame [OF x] upload_folder_frame [OF up] f1 show ?thesis
      by (simp add: st' count_transfer_def)
  qed
qed

lemma transfer_game_frame:
  assumes "transfer_game D E mt st url filename target = Inr (st', b)"
  shows "remote_folders st' = remote_folders st \<and>
         processed_games_metadata st' = processed_games_metadata st"
proof -
  define allow where "allow = (case mt of None \<Rightarrow> True | Some limit \<Rightarrow> int (transfer_count st) < limit)"
  define sta where "sta = (if allow then st
      else pr st (ReachedTransferLimit (case mt of None \<Rightarrow> 0 | Some limit \<Rightarrow> limit)))"
  have fa: "remote_folders sta = remote_folders st \<and>
            processed_games_metadata sta = processed_games_metadata st"
    by (simp add: sta_def pr_def)
  show ?thesis
  proof (cases "suffix ''.zip'' filename \<and> path_exists (files sta) (path_join (download_dir D) target)")
    case True
    with assms have "upload_local_folder D E allow sta (path_join (download_dir D) target) = Inr (st', b)"
      unfolding transfer_game_def Let_def allow_def [symmetric] sta_def [symmetric]
      by (simp only: simp_thms if_True)
    from upload_local_folder_frame [OF this] fa show ?thesis by simp
  next
    case False
    with assms have "\<exists>st1.
        clean_stale_temp sta (path_join (download_dir D) (filename @ ''.downloading'')) = Inr st1 \<and>
        (if allow
        then download_and_upload D E st1 url filename (path_join (download_dir D) filename)
        else (case discard_local_files (files st1) (path_join (download_dir D) filename)
                     (path_join (download_dir D) target)
                     (if suffix ''.zip'' filename
                      then Some (path_join (download_dir D) filename) else None) of
                Inl e \<Rightarrow> Inl e
              | Inr fs' \<Rightarrow> Inr (st1\<lparr>files := fs'\<rparr>, False))) = Inr (st', b)"
      unfolding transfer_game_def Let_def allow_def [symmetric] sta_def [symmetric]
      by (simp only: simp_thms if_False case_sum_Inr_iff)
    then obtain st1 where
      c: "clean_stale_temp sta (path_join (download_dir D) (filename @ ''.downloading'')) = Inr st1"
      and r: "(if allow
        then download_and_upload D E st1 url filename (path_join (download_dir D) filename)
        else (case discard_local_files (files st1) (path_join (download_dir D) filename)
                     (path_join (download_dir D) target)
                     (if suffix ''.zip'' filename
                      then Some (path_join (download_dir D) filename) else None) of
                Inl e \<Rightarrow> Inl e
              | Inr fs' \<Rightarrow> Inr (st1\<lparr>files := fs'\<rparr>, False))) = Inr (st', b)"
      by blast
    show ?thesis
    proof (cases allow)
      case True
      with r have "download_and_upload D E st1 url filename (path_join (download_dir D) filename) = Inr (st', b)"
        by simp
      from download_and_upload_frame [OF this] clean_stale_temp_frame [OF c] fa
      show ?thesis by simp
    next
      case False
      with r obtain fs' where "st' = st1\<lparr>files := fs'\<rparr>"
        by (auto simp: case_sum_Inr_iff)
      with clean_stale_temp_frame [OF c] fa show ?thesis
        by simp
    qed
  qed
qed

section \<open>The loop body\<close>

lemma folder_exists_snapshot:
  "folder_exists_on_remote D E t (Some S) =
     Inr (configured D \<and> t \<in> S, Some (if configured D then S - {t} else S))"
  by (auto simp: folder_exists_on_remote_def)

lemma process_games_append:
  "process_games D E mt st (xs @ ys) =
     (case process_games D E mt st xs of
        Inl e \<Rightarrow> Inl e
      | Inr st1 \<Rightarrow> process_games D E mt st1 ys)"
  by (induction xs arbitrary: st) (auto split: sum.splits)

lemma remove_local_total:
  "\<exists>fs'. remove_local fs p = Inr fs' \<and> fs' p = None \<and> (\<forall>q. fs' q = fs q \<or> fs' q = None)"
  by (auto simp: remove_local_def rmtree_def unlink_def path_exists_def is_dir_def node_at_def
      split: option.splits node.splits if_splits)

lemma clean_local_copies_total:
  assumes "\<forall>f. has \<and> filename = Some f \<and> f \<noteq> [] \<longrightarrow> \<not> is_dir fs (path_join (download_dir D) f)"
  shows "\<exists>fs'. clean_local_copies D fs has filename t = Inr fs' \<and>
           (\<forall>f. has \<and> filename = Some f \<and> f \<noteq> [] \<longrightarrow>
              fs' (path_join (download_dir D) t) = None \<and>
              fs' (path_join (download_dir D) f) = None)"
proof (cases "\<exists>f. has \<and> filename = Some f \<and> f \<noteq> []")
  case False
  then show ?thesis
    by (auto simp: clean_local_copies_def split: option.splits)
next
  case True
  then obtain f where f: "has" "filename = Some f" "f \<noteq> []"
    by blast
  obtain fs1 where r: "remove_local fs (path_join (download_dir D) t) = Inr fs1"
    and n: "fs1 (path_join (download_dir D) t) = None"
    and k: "\<forall>q. fs1 q = fs q \<or> fs1 q = None"
    using remove_local_total by blast
  from assms f have nd: "\<not> is_dir fs (path_join (download_dir D) f)"
    by simp
  have nd1: "node_at fs1 (path_join (download_dir D) f) \<noteq> Some Dir"
    using nd k [rule_format, of "path_join (download_dir D) f"]
    by (auto simp: is_dir_def node_at_def split: if_splits)
  show ?thesis
    using f r n nd1
    by (auto simp: clean_local_copies_def Let_def unlink_def path_exists_def node_at_def
        split: option.splits node.splits if_splits)
qed

lemma add_to_processed_processed:
  "processed_games_metadata (add_to_processed D st True t) =
     processed_games_metadata st @
       (case find_existing (games_metadata D) t 0 of
          Some (gm, i) \<Rightarrow> if gm \<noteq> [] then [gm] else []
        | None \<Rightarrow> [])"
  by (auto simp: add_to_processed_def pr_def split: option.splits)

lemma process_game_unfold:
  assumes "resolve_download game = (has, url, filename)"
  shows "process_game D E mt st game =
     (let t = gd_target_name game;
          ex = (configured D \<and> t \<in> remote_folders st);
          sta = st\<lparr>remote_folders :=
                       (if configured D then remote_folders st - {t} else remote_folders st)\<rparr>
      in if is_skipped D t \<and> \<not> ex then
           Inr (add_to_processed D (pr sta (SkippingOnSkipFlag t)) False t)
         else if is_skipped D t \<and> ex then
           include_remote_game D (pr sta (SkippedButOnRemote t)) has filename t
         else if ex then
           include_remote_game D (pr sta (AlreadyOnRemote t)) has filename t
         else if \<not> has then Inl (GameNotFound t)
         else (case (url, filename) of
                 (Some u, Some f) \<Rightarrow>
                   (case transfer_game D E mt sta u f t of
                      Inl e \<Rightarrow> Inl e
                    | Inr (st1, should_process_metadata) \<Rightarrow>
                        Inr (add_to_processed D st1 should_process_metadata t))
               | _ \<Rightarrow> Inl TypeError))"
  unfolding process_game_def assms folder_exists_snapshot Let_def
  by (cases url; cases filename) auto

lemma snapshot_without_absent:
  "\<not> (configured D \<and> t \<in> remote_folders st) \<Longrightarrow>
   st\<lparr>remote_folders := (if configured D then remote_folders st - {t} else remote_folders st)\<rparr> = st"
  by auto

lemma process_game_missing_source:
  assumes "\<not> fst (resolve_download game)"
    and "\<not> is_skipped D (gd_target_name game)"
    and "\<not> (configured D \<and> gd_target_name game \<in> remote_folders st)"
  shows "process_game D E mt st game = Inl (GameNotFound (gd_target_name game))"
proof -
  obtain has url filename where r: "resolve_download game = (has, url, filename)"
    by (cases "resolve_download game") auto
  with assms(1) have "\<not> has" by simp
  with assms(2,3) show ?thesis
    unfolding process_game_unfold [OF r] Let_def by presburger
qed

lemma process_game_skipped_absent:
  assumes "is_skipped D (gd_target_name game)"
    and "\<not> (configured D \<and> gd_target_name game \<in> remote_folders st)"
  shows "process_game D E mt st game = Inr (pr st (SkippingOnSkipFlag (gd_target_name game)))"
proof -
  obtain has url filename where r: "resolve_download game = (has, url, filename)"
    by (cases "resolve_download game") auto
  from assms have "process_game D E mt st game =
      Inr (add_to_processed D (pr (st\<lparr>remote_folders :=
          (if configured D then remote_folders st - {gd_target_name game}
           else remote_folders st)\<rparr>) (SkippingOnSkipFlag (gd_target_name game))) False
          (gd_target_name game))"
    unfolding process_game_unfold [OF r] Let_def by presburger
  then show ?thesis
    by (simp only: snapshot_without_absent [OF assms(2)] add_to_processed_def if_False)
qed

lemma process_game_on_remote:
  assumes "configured D" and "gd_target_name game \<in> remote_folders st"
    and "resolve_download game = (has, url, filename)"
  shows "process_game D E mt st game =
     include_remote_game D
       (pr (st\<lparr>remote_folders := remote_folders st - {gd_target_name game}\<rparr>)
          (if is_skipped D (gd_target_name game) then SkippedButOnRemote (gd_target_name game)
           else AlreadyOnRemote (gd_target_name game)))
       has filename (gd_target_name game)"
  unfolding process_game_unfold [OF assms(3)] Let_def
  using assms(1,2) by simp

lemma include_remote_game_total:
  assumes "\<forall>f. has \<and> filename = Some f \<and> f \<noteq> [] \<longrightarrow>
             \<not> is_dir (files st) (path_join (download_dir D) f)"
  shows "\<exists>fs'. include_remote_game D st has filename t =
                 Inr (add_to_processed D (st\<lparr>files := fs'\<rparr>) True t) \<and>
           (\<forall>f. has \<and> filename = Some f \<and> f \<noteq> [] \<longrightarrow>
              fs' (path_join (download_dir D) t) = None \<and>
              fs' (path_join (download_dir D) f) = None)"
  using clean_local_copies_total [OF assms, of t]
  by (auto simp: include_remote_game_def)

lemma process_game_remote_folders:
  assumes "process_game D E mt st game = Inr st'"
  shows "remote_folders st' =
     (if configured D then remote_folders st - {gd_target_name game} else remote_folders st)"
proof -
  obtain has url filename where r: "resolve_download game = (has, url, filename)"
    by (cases "resolve_download game") auto
  define t where "t = gd_target_name game"
  define S where "S = (if configured D then remote_folders st - {t} else remote_folders st)"
  define sta where "sta = st\<lparr>remote_folders := S\<rparr>"
  have incl: "include_remote_game D (pr sta m) has filename t = Inr st' \<Longrightarrow>
      remote_folders st' = S" for m
    by (auto simp: include_remote_game_def case_sum_Inr_iff add_to_processed_frame pr_def sta_def)
  have tr: "(case (url, filename) of
               (Some u, Some f) \<Rightarrow>
                 (case transfer_game D E mt sta u f t of
                    Inl e \<Rightarrow> Inl e
                  | Inr (st1, should_process_metadata) \<Rightarrow>
                      Inr (add_to_processed D st1 should_process_metadata t))
             | _ \<Rightarrow> Inl TypeError) = Inr st' \<Longrightarrow> remote_folders st' = S"
  proof -
    assume a: "(case (url, filename) of
               (Some u, Some f) \<Rightarrow>
                 (case transfer_game D E mt sta u f t of
                    Inl e \<Rightarrow> Inl e
                  | Inr (st1, should_process_metadata) \<Rightarrow>
                      Inr (add_to_processed D st1 should_process_metadata t))
             | _ \<Rightarrow> Inl TypeError) = Inr st'"
    then obtain u f where uf: "url = Some u" "filename = Some f"
      by (cases url; cases filename) auto
    with a obtain st1 b where g: "transfer_game D E mt sta u f t = Inr (st1, b)"
      and e: "st' = add_to_processed D st1 b t"
      by (auto simp: case_sum_Inr_iff)
    from transfer_game_frame [OF g] e show ?thesis
      by (simp add: add_to_processed_frame sta_def)
  qed
  have pg: "process_game D E mt st game =
      (if is_skipped D t \<and> \<not> (configured D \<and> t \<in> remote_folders st) then
         Inr (add_to_processed D (pr sta (SkippingOnSkipFlag t)) False t)
       else if is_skipped D t \<and> (configured D \<and> t \<in> remote_folders st) then
         include_remote_game D (pr sta (SkippedButOnRemote t)) has filename t
       else if configured D \<and> t \<in> remote_folders st then
         include_remote_game D (pr sta (AlreadyOnRemote t)) has filename t
       else if \<not> has then Inl (GameNotFound t)
       else (case (url, filename) of
               (Some u, Some f) \<Rightarrow>
                 (case transfer_game D E mt sta u f t of
                    Inl e \<Rightarrow> Inl e
                  | Inr (st1, should_process_metadata) \<Rightarrow>
                      Inr (add_to_processed D st1 should_process_metadata t))
             | _ \<Rightarrow> Inl TypeError))"
    unfolding process_game_unfold [OF r] Let_def t_def sta_def S_def ..
  consider (a) "is_skipped D t \<and> \<not> (configured D \<and> t \<in> remote_folders st)"
    | (b) "\<not> (is_skipped D t \<and> \<not> (configured D \<and> t \<in> remote_folders st))"
          "configured D \<and> t \<in> remote_folders st"
    | (c) "\<not> is_skipped D t" "\<not> (configured D \<and> t \<in> remote_folders st)"
    by blast
  then have "remote_folders st' = S"
  proof cases
    case a
    with assms pg have "st' = add_to_processed D (pr sta (SkippingOnSkipFlag t)) False t"
      by simp
    then show ?thesis
      by (simp add: add_to_processed_frame pr_def sta_def)
  next
    case b
    with assms pg have "\<exists>m. include_remote_game D (pr sta m) has filename t = Inr st'"
      by (cases "is_skipped D t") auto
    with incl show ?thesis by blast
  next
    case c
    with assms pg have h: "has"
      by (cases has) auto
    with c assms pg have "(case (url, filename) of
               (Some u, Some f) \<Rightarrow>
                 (case transfer_game D E mt sta u f t of
                    Inl e \<Rightarrow> Inl e
                  | Inr (st1, should_process_metadata) \<Rightarrow>
                      Inr (add_to_processed D st1 should_process_metadata t))
             | _ \<Rightarrow> Inl TypeError) = Inr st'"
      by auto
    then show ?thesis
      by (rule tr)
  qed
  then show ?thesis
    by (simp add: S_def t_def)
qed

lemma process_games_remote_folders:
  "process_games D E mt st games = Inr st' \<Longrightarrow>
   remote_folders st' =
     (if configured D then remote_folders st - gd_target_name ` set games else remote_folders st)"
proof (induction games arbitrary: st)
  case Nil
  then show ?case by simp
next
  case (Cons g gs)
  then obtain st1 where g: "process_game D E mt st g = Inr st1"
    and gs: "process_games D E mt st1 gs = Inr st'"
    by (auto simp: case_sum_Inr_iff)
  from Cons.IH [OF gs] process_game_remote_folders [OF g] show ?case
    by auto
qed

lemmas sample_defs = sample_downloader_def sample_env_def empty_state_def stale_state_def game_A_def game_B_def
  game_C_def game_without_url_def

lemmas run_defs = process_game_def resolve_download_def FRS_def folder_exists_on_remote_def
  configured_def is_skipped_def include_remote_game_def clean_local_copies_def remove_local_def
  path_exists_def node_at_def is_anchor_def path_join_def py_path_def add_to_processed_def
  dict_get_def pr_def start_run_def get_remote_folders_def Let_def


section \<open>Reconciliation\<close>

text \<open>
  Claim C3.  Let the listing of the mirror give the snapshot \<open>folders\<close>, and let the loop
  decide every entry of the list without raising.  Then the snapshot that is left holds
  exactly the names of \<open>folders\<close> that are no target name of an entry: every matched name
  has been removed.  If any name is left, the run raises the orphan error, which carries
  every name that is left (in sorted order); if none is left the run returns.
\<close>

theorem orphans_abort_run:
  assumes "get_remote_folders D E = Inr folders" and "finite folders"
    and "process_games D E max_transfers (start_run st0 folders) games = Inr st1"
  shows "remote_folders st1 = folders - gd_target_name ` set games \<and>
         (folders - gd_target_name ` set games \<noteq> {} \<longrightarrow>
            download_and_process_games D E st0 games max_transfers =
              Inl (OrphanedFolders (sorted_list_of_set (folders - gd_target_name ` set games))) \<and>
            set (sorted_list_of_set (folders - gd_target_name ` set games)) =
              folders - gd_target_name ` set games) \<and>
         (folders - gd_target_name ` set games = {} \<longrightarrow>
            (\<exists>st2. download_and_process_games D E st0 games max_transfers = Inr st2))"
proof -
  have e: "\<not> configured D \<Longrightarrow> folders = {}"
    using assms(1) by (simp add: get_remote_folders_def)
  have "remote_folders (start_run st0 folders) = folders"
    by (simp add: start_run_def)
  with process_games_remote_folders [OF assms(3)] e
  have rf: "remote_folders st1 = folders - gd_target_name ` set games"
    by (cases "configured D") auto
  show ?thesis
    using assms(2) rf
    by (simp add: download_and_process_games_def assms(1,3) check_orphans_def)
qed

text \<open>
  Claim C6.  An entry without a download from the project's file release server
  (\<^verbatim>\<open>has_scummvm_download\<close> is false, as for every entry with no URL at all), which is not
  marked to be skipped and is not found on the mirror, makes the loop body raise the
  missing-source error.  When the entries before it have been decided, the whole run ends
  with that error, whatever entries come later.
\<close>

theorem missing_source_aborts_run:
  assumes "\<not> fst (resolve_download game)"
    and "\<not> is_skipped D (gd_target_name game)"
    and "get_remote_folders D E = Inr folders"
    and "process_games D E max_transfers (start_run st0 folders) before = Inr st"
    and "\<not> (configured D \<and> gd_target_name game \<in> remote_folders st)"
  shows "process_game D E max_transfers st game = Inl (GameNotFound (gd_target_name game)) \<and>
         download_and_process_games D E st0 (before @ game # later) max_transfers =
           Inl (GameNotFound (gd_target_name game))"
  using process_game_missing_source [OF assms(1,2,5)]
  by (simp add: download_and_process_games_def assms(3,4) process_games_append)

text \<open>
  Claim C7.  For an entry marked to be skipped: if it is not found on the mirror, the loop
  body only prints that it skips the game, so nothing is transferred and nothing is added
  to the processed list.  If it is found on the mirror (and the local archive path is not
  a directory, which \<^verbatim>\<open>unlink\<close> could not remove), the loop body returns, issues no remote
  command and counts no transfer, removes the name from the snapshot, appends the catalog
  record of the target name to the processed list (the export is written from that list),
  and, for an entry with a download and a file name, leaves nothing at the local folder
  path and at the local archive path.
\<close>

theorem skip_flag_decides:
  assumes "is_skipped D (gd_target_name game)"
  shows "(\<not> (configured D \<and> gd_target_name game \<in> remote_folders st) \<longrightarrow>
            process_game D E max_transfers st game =
              Inr (pr st (SkippingOnSkipFlag (gd_target_name game)))) \<and>
         (configured D \<and> gd_target_name game \<in> remote_folders st \<and>
          (\<forall>u f. resolve_download game = (True, u, Some f) \<and> f \<noteq> [] \<longrightarrow>
                 \<not> is_dir (files st) (path_join (download_dir D) f)) \<longrightarrow>
            (\<exists>st'. process_game D E max_transfers st game = Inr st' \<and>
               issued st' = issued st \<and> remote st' = remote st \<and>
               transfer_count st' = transfer_count st \<and>
               remote_folders st' = remote_folders st - {gd_target_name game} \<and>
               processed_games_metadata st' =
                 processed_games_metadata st @
                   (case find_existing (games_metadata D) (gd_target_name game) 0 of
                      Some (game_metadata, i) \<Rightarrow> if game_metadata \<noteq> [] then [game_metadata] else []
                    | None \<Rightarrow> []) \<and>
               (\<forall>u f. resolve_download game = (True, u, Some f) \<and> f \<noteq> [] \<longrightarrow>
                  files st' (path_join (download_dir D) (gd_target_name game)) = None \<and>
                  files st' (path_join (download_dir D) f) = None)))"
proof (intro conjI impI)
  assume "\<not> (configured D \<and> gd_target_name game \<in> remote_folders st)"
  with assms show "process_game D E max_transfers st game =
      Inr (pr st (SkippingOnSkipFlag (gd_target_name game)))"
    by (rule process_game_skipped_absent)
next
  assume a: "configured D \<and> gd_target_name game \<in> remote_folders st \<and>
          (\<forall>u f. resolve_download game = (True, u, Some f) \<and> f \<noteq> [] \<longrightarrow>
                 \<not> is_dir (files st) (path_join (download_dir D) f))"
  obtain has url filename where r: "resolve_download game = (has, url, filename)"
    by (cases "resolve_download game") auto
  define t where "t = gd_target_name game"
  define sta where "sta = pr (st\<lparr>remote_folders := remote_folders st - {t}\<rparr>) (SkippedButOnRemote t)"
  have pg: "process_game D E max_transfers st game = include_remote_game D sta has filename t"
    using a assms process_game_on_remote [OF _ _ r, where D = D and E = E and mt = max_transfers and st = st]
    by (simp add: sta_def t_def)
  have "\<forall>f. has \<and> filename = Some f \<and> f \<noteq> [] \<longrightarrow>
             \<not> is_dir (files sta) (path_join (download_dir D) f)"
    using a r by (auto simp: sta_def pr_def)
  from include_remote_game_total [OF this, of t] obtain fs' where
    i: "include_remote_game D sta has filename t = Inr (add_to_processed D (sta\<lparr>files := fs'\<rparr>) True t)"
    and c: "\<forall>f. has \<and> filename = Some f \<and> f \<noteq> [] \<longrightarrow>
              fs' (path_join (download_dir D) t) = None \<and> fs' (path_join (download_dir D) f) = None"
    by blast
  show "\<exists>st'. process_game D E max_transfers st game = Inr st' \<and>
               issued st' = issued st \<and> remote st' = remote st \<and>
               transfer_count st' = transfer_count st \<and>
               remote_folders st' = remote_folders st - {gd_target_name game} \<and>
               processed_games_metadata st' =
                 processed_games_metadata st @
                   (case find_existing (games_metadata D) (gd_target_name game) 0 of
                      Some (game_metadata, i) \<Rightarrow> if game_metadata \<noteq> [] then [game_metadata] else []
                    | None \<Rightarrow> []) \<and>
               (\<forall>u f. resolve_download game = (True, u, Some f) \<and> f \<noteq> [] \<longrightarrow>
                  files st' (path_join (download_dir D) (gd_target_name game)) = None \<and>
                  files st' (path_join (download_dir D) f) = None)"
    unfolding pg i t_def [symmetric]
    using c r
    by (auto simp: add_to_processed_frame add_to_processed_processed sta_def pr_def)
qed

text \<open>
  The snapshot \<open>A, B\<close> and a list whose only entry has the target \<open>A\<close>: the run raises
  the orphan error naming \<open>B\<close>.
\<close>

theorem orphans_abort_run_witness:
  "get_remote_folders sample_downloader sample_env = Inr {''A'', ''B''} \<and>
   download_and_process_games sample_downloader sample_env empty_state [game_A] None =
     Inl (OrphanedFolders [''B''])"
proof -
  have g: "get_remote_folders sample_downloader sample_env = Inr {''A'', ''B''}"
    by (simp add: sample_defs run_defs)
  have "\<exists>st1. process_games sample_downloader sample_env None
           (start_run empty_state {''A'', ''B''}) [game_A] = Inr st1"
    by (simp add: sample_defs run_defs)
  then obtain st1 where p: "process_games sample_downloader sample_env None
           (start_run empty_state {''A'', ''B''}) [game_A] = Inr st1"
    by blast
  have d: "{''A'', ''B''} - gd_target_name ` set [game_A] = {''B''}"
    by (auto simp: game_A_def)
  from orphans_abort_run [OF g _ p] g show ?thesis
    by (simp add: game_A_def)
qed

text \<open>
  A run over \<open>A\<close>, an entry \<open>X\<close> with an empty URL, and \<open>B\<close>: the run ends with the
  missing-source error for \<open>X\<close>.
\<close>

theorem missing_source_aborts_run_witness:
  "\<not> fst (resolve_download game_without_url) \<and>
   \<not> is_skipped sample_downloader ''X'' \<and>
   download_and_process_games sample_downloader sample_env empty_state
     [game_A, game_without_url, game_B] None = Inl (GameNotFound ''X'')"
proof -
  have h1: "\<not> fst (resolve_download game_without_url)"
    by (simp add: sample_defs run_defs)
  have h2: "\<not> is_skipped sample_downloader (gd_target_name game_without_url)"
    by (simp add: sample_defs run_defs)
  have g: "get_remote_folders sample_downloader sample_env = Inr {''A'', ''B''}"
    by (simp add: sample_defs run_defs)
  have "\<exists>st. process_games sample_downloader sample_env None
           (start_run empty_state {''A'', ''B''}) [game_A] = Inr st"
    by (simp add: sample_defs run_defs)
  then obtain st where p: "process_games sample_downloader sample_env None
           (start_run empty_state {''A'', ''B''}) [game_A] = Inr st"
    by blast
  have h5: "\<not> (configured sample_downloader \<and>
               gd_target_name game_without_url \<in> remote_folders st)"
    using process_games_remote_folders [OF p]
    by (simp add: start_run_def game_without_url_def game_A_def split: if_splits)
  from missing_source_aborts_run [OF h1 h2 g p h5, of "[game_B]"] h1 h2 show ?thesis
    by (simp add: game_without_url_def)
qed

text \<open>
  With the snapshot \<open>A, B\<close> and local leftovers of \<open>B\<close>: the skipped \<open>C\<close> is only
  reported; the skipped \<open>B\<close> is added to the processed list and its folder and archive
  are gone.
\<close>

theorem skip_flag_decides_witness:
  "is_skipped sample_downloader ''C'' \<and> is_skipped sample_downloader ''B'' \<and>
   process_game sample_downloader sample_env None stale_state game_C =
     Inr (pr stale_state (SkippingOnSkipFlag ''C'')) \<and>
   (\<exists>st'. process_game sample_downloader sample_env None stale_state game_B = Inr st' \<and>
      issued st' = [] \<and> transfer_count st' = 0 \<and>
      processed_games_metadata st' =
        [[(''id'', PStr ''eng:b''), (''relative_path'', PStr ''B''),
          (''description'', PStr ''Game B'')]] \<and>
      files st' [''games'', ''B''] = None \<and> files st' [''games'', ''B.zip''] = None)"
proof -
  have c: "is_skipped sample_downloader (gd_target_name game_C)"
    and b: "is_skipped sample_downloader (gd_target_name game_B)"
    by (simp_all add: sample_defs run_defs)
  have nc: "\<not> (configured sample_downloader \<and> gd_target_name game_C \<in> remote_folders stale_state)"
    by (simp add: sample_defs)
  have rb: "resolve_download game_B = (True, Some (FRS @ ''/extras/B.zip''), Some ''B.zip'')"
    by (simp add: game_B_def resolve_download_def)
  have hb: "configured sample_downloader \<and> gd_target_name game_B \<in> remote_folders stale_state \<and>
      (\<forall>u f. resolve_download game_B = (True, u, Some f) \<and> f \<noteq> [] \<longrightarrow>
             \<not> is_dir (files stale_state) (path_join (download_dir sample_downloader) f))"
    by (simp add: rb) (simp add: sample_defs run_defs is_dir_def)
  have fe: "find_existing (games_metadata sample_downloader) ''B'' 0 =
      Some ([(''id'', PStr ''eng:b''), (''relative_path'', PStr ''B''),
             (''description'', PStr ''Game B'')], 1)"
    by (simp add: sample_defs run_defs)
  have pj: "path_join (download_dir sample_downloader) ''B'' = [''games'', ''B'']"
      "path_join (download_dir sample_downloader) ''B.zip'' = [''games'', ''B.zip'']"
    by (simp_all add: sample_defs run_defs)
  from skip_flag_decides [OF c, where st = stale_state and E = sample_env and max_transfers = None] nc
  have 1: "process_game sample_downloader sample_env None stale_state game_C =
      Inr (pr stale_state (SkippingOnSkipFlag ''C''))"
    by (simp add: game_C_def)
  from skip_flag_decides [OF b, where st = stale_state and E = sample_env and max_transfers = None] hb
  obtain st' where "process_game sample_downloader sample_env None stale_state game_B = Inr st'"
    "issued st' = issued stale_state" "transfer_count st' = transfer_count stale_state"
    "processed_games_metadata st' = processed_games_metadata stale_state @
       (case find_existing (games_metadata sample_downloader) (gd_target_name game_B) 0 of
          Some (game_metadata, i) \<Rightarrow> if game_metadata \<noteq> [] then [game_metadata] else []
        | None \<Rightarrow> [])"
    "\<forall>u f. resolve_download game_B = (True, u, Some f) \<and> f \<noteq> [] \<longrightarrow>
       files st' (path_join (download_dir sample_downloader) (gd_target_name game_B)) = None \<and>
       files st' (path_join (download_dir sample_downloader) f) = None"
    by blast
  then have 2: "\<exists>st'. process_game sample_downloader sample_env None stale_state game_B = Inr st' \<and>
      issued st' = [] \<and> transfer_count st' = 0 \<and>
      processed_games_metadata st' =
        [[(''id'', PStr ''eng:b''), (''relative_path'', PStr ''B''),
          (''description'', PStr ''Game B'')]] \<and>
      files st' [''games'', ''B''] = None \<and> files st' [''games'', ''B.zip''] = None"
    using rb fe pj by (auto simp: game_B_def stale_state_def)
  from c b 1 2 show ?thesis
    by (simp add: game_C_def game_B_def)
qed

section \<open>extract_zip: the existing folder\<close>

lemma extract_zip_returns_extract_dir:
  "extract_zip D st zip_path = Inr (st', folder) \<Longrightarrow>
   folder = path_join (download_dir D) (path_stem zip_path)"
  by (auto simp: extract_zip_def Let_def split: if_splits option.splits node.splits
      file_data.splits sum.splits prod.splits)

text \<open>
  Claim C8.  When the folder named after the archive's base name exists, \<^verbatim>\<open>extract_zip\<close>
  returns that folder path and changes nothing but the printed lines: it extracts nothing
  and does not remove the archive.  Hence whenever a call has returned a folder that
  exists, a second call on the same archive returns the same folder path and leaves the
  files as they are.
\<close>

theorem extract_zip_idempotent:
  "(path_exists (files st) (path_join (download_dir D) (path_stem zip_path)) \<longrightarrow>
      extract_zip D st zip_path =
        Inr (pr st (DirectoryAlreadyExists (path_join (download_dir D) (path_stem zip_path))),
             path_join (download_dir D) (path_stem zip_path))) \<and>
   (\<forall>st1 folder. extract_zip D st zip_path = Inr (st1, folder) \<and> path_exists (files st1) folder \<longrightarrow>
      extract_zip D st1 zip_path = Inr (pr st1 (DirectoryAlreadyExists folder), folder) \<and>
      files (pr st1 (DirectoryAlreadyExists folder)) = files st1)"
proof -
  have a: "path_exists (files s) (path_join (download_dir D) (path_stem zip_path)) \<Longrightarrow>
      extract_zip D s zip_path =
        Inr (pr s (DirectoryAlreadyExists (path_join (download_dir D) (path_stem zip_path))),
             path_join (download_dir D) (path_stem zip_path))" for s
    by (simp add: extract_zip_def Let_def)
  show ?thesis
    using a extract_zip_returns_extract_dir by (auto simp: pr_def)
qed

lemma stem_Foo: "path_join [''games''] (path_stem [''games'', ''Foo.zip'']) = [''games'', ''Foo'']"
  by (simp add: path_stem_def path_name_def is_anchor_def py_rfind_def path_join_def py_path_def)

text \<open>
  With \<open>games/Foo\<close> in place, two calls on \<open>games/Foo.zip\<close> return \<open>games/Foo\<close> and
  the archive is still there.
\<close>

theorem extract_zip_idempotent_witness:
  "path_exists (files folder_there_state) [''games'', ''Foo''] \<and>
   extract_zip sample_downloader folder_there_state [''games'', ''Foo.zip''] =
     Inr (pr folder_there_state (DirectoryAlreadyExists [''games'', ''Foo'']), [''games'', ''Foo'']) \<and>
   files (pr folder_there_state (DirectoryAlreadyExists [''games'', ''Foo''])) [''games'', ''Foo.zip''] =
     Some (File (Archive [ZipInfo ''a.txt'' ''A''])) \<and>
   extract_zip sample_downloader (pr folder_there_state (DirectoryAlreadyExists [''games'', ''Foo'']))
       [''games'', ''Foo.zip''] =
     Inr (pr (pr folder_there_state (DirectoryAlreadyExists [''games'', ''Foo'']))
            (DirectoryAlreadyExists [''games'', ''Foo'']), [''games'', ''Foo''])"
proof -
  have e: "path_exists (files folder_there_state) [''games'', ''Foo'']"
    by (simp add: folder_there_state_def path_exists_def node_at_def is_anchor_def)
  have d: "download_dir sample_downloader = [''games'']"
    by (simp add: sample_downloader_def)
  note t = extract_zip_idempotent [of folder_there_state sample_downloader "[''games'', ''Foo.zip'']",
      unfolded d stem_Foo]
  from t e have 1: "extract_zip sample_downloader folder_there_state [''games'', ''Foo.zip''] =
     Inr (pr folder_there_state (DirectoryAlreadyExists [''games'', ''Foo'']), [''games'', ''Foo''])"
    by blast
  have e1: "path_exists (files (pr folder_there_state (DirectoryAlreadyExists [''games'', ''Foo''])))
      [''games'', ''Foo'']"
    using e by (simp add: pr_def)
  from t 1 e1 have 2: "extract_zip sample_downloader
       (pr folder_there_state (DirectoryAlreadyExists [''games'', ''Foo''])) [''games'', ''Foo.zip''] =
     Inr (pr (pr folder_there_state (DirectoryAlreadyExists [''games'', ''Foo'']))
            (DirectoryAlreadyExists [''games'', ''Foo'']), [''games'', ''Foo''])"
    by blast
  have 3: "files (pr folder_there_state (DirectoryAlreadyExists [''games'', ''Foo'']))
      [''games'', ''Foo.zip''] = Some (File (Archive [ZipInfo ''a.txt'' ''A'']))"
    by (simp add: pr_def folder_there_state_def)
  from e 1 2 3 show ?thesis by simp
qed

section \<open>upload_folder\<close>

lemma run_remote_rmrf:
  assumes "run_remote E st (RmRf x) = (st', ok)"
  shows "ok = succeeds E (length (issued st)) \<and> issued st' = issued st @ [RmRf x] \<and>
         files st' = files st \<and> printed st' = printed st \<and>
         remote st' = (if ok then (remote st)(x := None) else remote st)"
  using assms by (auto simp: run_remote_def Let_def split: if_splits)

lemma run_remote_scp:
  assumes "run_remote E st (ScpR p x) = (st', ok)"
  shows "issued st' = issued st @ [ScpR p x] \<and> files st' = files st \<and> printed st' = printed st \<and>
         (\<forall>y. y \<noteq> x \<longrightarrow> remote st' y = remote st y) \<and>
         (ok \<longrightarrow> remote st' x \<noteq> None \<and> succeeds E (length (issued st))) \<and>
         (path_exists (files st) p \<and> succeeds E (length (issued st)) \<and> remote st x = None \<longrightarrow>
            ok \<and> remote st' x = Some (subtree (files st) p))"
  using assms
  by (auto simp: run_remote_def Let_def place_def split: if_splits option.splits)

lemma run_remote_mv:
  assumes "run_remote E st (Mv a b) = (st', ok)" and "a \<noteq> b"
  shows "issued st' = issued st @ [Mv a b] \<and> files st' = files st \<and> printed st' = printed st \<and>
         (\<not> ok \<longrightarrow> remote st' = remote st) \<and>
         (ok \<longrightarrow> remote st' a = None \<and> succeeds E (length (issued st))) \<and>
         (\<forall>tree. remote st a = Some tree \<and> succeeds E (length (issued st)) \<and> remote st b = None \<longrightarrow>
            ok \<and> remote st' b = Some tree)"
  using assms
  by (auto simp: run_remote_def Let_def place_def split: if_splits option.splits)

lemma upload_failed_effect:
  assumes "upload_failed E st name temp = (st', ok)" and "name \<noteq> temp"
  shows "\<not> ok \<and> issued st' = issued st @ [RmRf temp] \<and> remote st' name = remote st name \<and>
         (succeeds E (length (issued st)) \<longrightarrow> remote st' temp = None) \<and>
         UploadFailed name \<in> set (printed st') \<and> files st' = files st"
proof -
  obtain st1 c where r: "run_remote E (pr st (UploadFailed name)) (RmRf temp) = (st1, c)"
    by fastforce
  from assms have st': "st' = pr st1 (CleanedUpFailedUpload temp)" and ok: "\<not> ok"
    by (auto simp: upload_failed_def r)
  from run_remote_rmrf [OF r] assms(2) show ?thesis
    by (auto simp: st' ok pr_def)
qed

text \<open>
  Claim C4.  With a mirror configured, \<^verbatim>\<open>upload_folder\<close> first issues the removal of the
  temporary name \<open>name.uploading\<close> and then the copy of the folder to that name.  It
  returns a flag and never raises.  When it returns false, the entry at the final name is
  what it was before.  When it returns true, the three commands issued are the removal,
  the copy and the move of the temporary name to the final name, and the temporary name is
  gone.  If the folder exists locally, the three commands succeed and the final name was
  free, the final name holds the copy of the folder.  If the removal and the copy succeed
  and the move fails, the method returns false, the entry at the final name is unchanged
  (so absent if it was absent), the clean-up removal of the temporary name has been issued
  after the failed move, the temporary name is gone when that removal succeeds, and the
  failure has been printed.
\<close>

theorem upload_folder_atomic:
  assumes "configured D"
    and "upload_folder D E st folder_path = (st', uploaded)"
    and "name = path_name folder_path" and "temp = name @ ''.uploading''"
    and "n = length (issued st)"
  shows "take (n + 2) (issued st') = issued st @ [RmRf temp, ScpR folder_path temp] \<and>
         (\<not> uploaded \<longrightarrow> remote st' name = remote st name) \<and>
         (uploaded \<longrightarrow>
            issued st' = issued st @ [RmRf temp, ScpR folder_path temp, Mv temp name] \<and>
            remote st' temp = None) \<and>
         (path_exists (files st) folder_path \<and> succeeds E n \<and> succeeds E (n + 1) \<and>
          succeeds E (n + 2) \<and> remote st name = None \<longrightarrow>
            uploaded \<and> remote st' name = Some (subtree (files st) folder_path)) \<and>
         (path_exists (files st) folder_path \<and> succeeds E n \<and> succeeds E (n + 1) \<and>
          \<not> succeeds E (n + 2) \<longrightarrow>
            \<not> uploaded \<and>
            issued st' = issued st @ [RmRf temp, ScpR folder_path temp, Mv temp name, RmRf temp] \<and>
            remote st' name = remote st name \<and>
            (succeeds E (n + 3) \<longrightarrow> remote st' temp = None) \<and>
            UploadFailed name \<in> set (printed st'))"
proof -
  have ne: "name \<noteq> temp" "temp \<noteq> name"
    using assms(4) by auto
  obtain st1 c1 where r1: "run_remote E st (RmRf temp) = (st1, c1)"
    by fastforce
  obtain st2 c2 where r2: "run_remote E st1 (ScpR folder_path temp) = (st2, c2)"
    by fastforce
  obtain st3 c3 where r3: "run_remote E st2 (Mv temp name) = (st3, c3)"
    by fastforce
  note e1 = run_remote_rmrf [OF r1]
  note e2 = run_remote_scp [OF r2]
  note e3 = run_remote_mv [OF r3 ne(2)]
  have u: "upload_folder D E st folder_path =
      (if \<not> c2 then upload_failed E st2 name temp
       else if \<not> c3 then upload_failed E st3 name temp
       else (pr st3 (SuccessfullyUploaded name), True))"
    using assms(1) by (simp add: upload_folder_def assms(3,4) [symmetric] r1 r2 r3)
  have i1: "issued st1 = issued st @ [RmRf temp]"
    using e1 by simp
  have i2: "issued st2 = issued st @ [RmRf temp, ScpR folder_path temp]"
    using e2 i1 by simp
  have i3: "issued st3 = issued st @ [RmRf temp, ScpR folder_path temp, Mv temp name]"
    using e3 i2 by simp
  have l1: "length (issued st1) = n + 1" and l2: "length (issued st2) = n + 2"
    and l3: "length (issued st3) = n + 3"
    using i1 i2 i3 assms(5) by simp_all
  have n1: "remote st1 name = remote st name"
    using e1 ne by simp
  have n2: "remote st2 name = remote st name"
    using e2 ne n1 by simp
  have f1: "files st1 = files st"
    using e1 by simp
  have t1: "succeeds E n \<Longrightarrow> remote st1 temp = None"
    using e1 assms(5) by simp
  have k2: "path_exists (files st) folder_path \<Longrightarrow> succeeds E n \<Longrightarrow> succeeds E (n + 1) \<Longrightarrow>
      c2 \<and> remote st2 temp = Some (subtree (files st) folder_path)"
    using e2 t1 f1 l1 by simp
  have k3: "path_exists (files st) folder_path \<Longrightarrow> succeeds E n \<Longrightarrow> succeeds E (n + 1) \<Longrightarrow>
      succeeds E (n + 2) \<Longrightarrow> remote st name = None \<Longrightarrow>
      c3 \<and> remote st3 name = Some (subtree (files st) folder_path)"
    using e3 k2 n2 l2 by simp
  have s3: "c3 \<Longrightarrow> succeeds E (n + 2)"
    using e3 l2 by simp
  show ?thesis
  proof (cases "c2 \<and> c3")
    case True
    with u assms(2) have st': "st' = pr st3 (SuccessfullyUploaded name)" and up: "uploaded"
      by simp_all
    have is': "issued st' = issued st @ [RmRf temp, ScpR folder_path temp, Mv temp name]"
      by (simp add: st' pr_def i3)
    have rem: "remote st' = remote st3"
      by (simp add: st' pr_def)
    have g1: "take (n + 2) (issued st') = issued st @ [RmRf temp, ScpR folder_path temp]"
      by (simp add: is' assms(5))
    have g3: "remote st' temp = None"
      using e3 True by (simp add: rem)
    have g4: "path_exists (files st) folder_path \<and> succeeds E n \<and> succeeds E (n + 1) \<and>
          succeeds E (n + 2) \<and> remote st name = None \<longrightarrow>
            remote st' name = Some (subtree (files st) folder_path)"
      using k3 by (simp add: rem)
    have g5: "succeeds E (n + 2)"
      using s3 True by simp
    from g1 g3 g4 g5 up is' show ?thesis
      by simp
  next
    case False
    define stf where "stf = (if \<not> c2 then st2 else st3)"
    from False u assms(2) have f: "upload_failed E stf name temp = (st', uploaded)"
      by (auto simp: stf_def)
    note ef = upload_failed_effect [OF f ne(1)]
    have up: "\<not> uploaded"
      using ef by simp
    have nf: "remote stf name = remote st name"
      using n2 e3 False by (auto simp: stf_def)
    have g2: "remote st' name = remote st name"
      using ef nf by simp
    have isf: "take (n + 2) (issued stf) = issued st @ [RmRf temp, ScpR folder_path temp]"
      by (simp add: stf_def i2 i3 assms(5))
    have lf: "n + 2 \<le> length (issued stf)"
      by (simp add: stf_def l2 l3)
    have g1: "take (n + 2) (issued st') = issued st @ [RmRf temp, ScpR folder_path temp]"
      using ef isf lf by simp
    have g4: "\<not> (path_exists (files st) folder_path \<and> succeeds E n \<and> succeeds E (n + 1) \<and>
          succeeds E (n + 2) \<and> remote st name = None)"
      using k2 k3 False by blast
    have g5: "path_exists (files st) folder_path \<and> succeeds E n \<and> succeeds E (n + 1) \<and>
          \<not> succeeds E (n + 2) \<longrightarrow>
            issued st' = issued st @ [RmRf temp, ScpR folder_path temp, Mv temp name, RmRf temp] \<and>
            (succeeds E (n + 3) \<longrightarrow> remote st' temp = None) \<and>
            UploadFailed name \<in> set (printed st')"
    proof (intro impI)
      assume h: "path_exists (files st) folder_path \<and> succeeds E n \<and> succeeds E (n + 1) \<and>
          \<not> succeeds E (n + 2)"
      with k2 have c2 by simp
      then have stf: "stf = st3"
        by (simp add: stf_def)
      from ef show "issued st' = issued st @ [RmRf temp, ScpR folder_path temp, Mv temp name, RmRf temp] \<and>
            (succeeds E (n + 3) \<longrightarrow> remote st' temp = None) \<and>
            UploadFailed name \<in> set (printed st')"
        by (simp add: stf i3 l3 assms(5) eval_nat_numeral)
    qed
    from g1 g2 g4 g5 up show ?thesis
      by blast
  qed
qed

text \<open>
  Uploading \<open>games/Foo\<close> to an empty mirror: when the third remote command (the move)
  fails, neither \<open>Foo\<close> nor \<open>Foo.uploading\<close> is on the mirror afterwards; when every
  command succeeds, \<open>Foo\<close> holds the copy.
\<close>

theorem upload_folder_atomic_witness:
  "(case upload_folder sample_downloader rename_fails_env folder_there_state [''games'', ''Foo''] of
      (st', uploaded) \<Rightarrow>
        \<not> uploaded \<and> remote st' ''Foo'' = None \<and> remote st' ''Foo.uploading'' = None \<and>
        issued st' = [RmRf ''Foo.uploading'', ScpR [''games'', ''Foo''] ''Foo.uploading'',
                      Mv ''Foo.uploading'' ''Foo'', RmRf ''Foo.uploading'']) \<and>
   (case upload_folder sample_downloader sample_env folder_there_state [''games'', ''Foo''] of
      (st', uploaded) \<Rightarrow>
        uploaded \<and> remote st' ''Foo.uploading'' = None \<and>
        remote st' ''Foo'' = Some (subtree (files folder_there_state) [''games'', ''Foo'']))"
proof -
  have c: "configured sample_downloader"
    by (simp add: sample_downloader_def configured_def)
  have nm: "''Foo'' = path_name [''games'', ''Foo'']"
    by (simp add: path_name_def is_anchor_def)
  have ex: "path_exists (files folder_there_state) [''games'', ''Foo'']"
    by (simp add: folder_there_state_def path_exists_def node_at_def is_anchor_def)
  have st: "remote folder_there_state = Map.empty" "issued folder_there_state = []"
    by (simp_all add: folder_there_state_def)
  obtain s1 u1 where 1: "upload_folder sample_downloader rename_fails_env folder_there_state
      [''games'', ''Foo''] = (s1, u1)"
    by fastforce
  obtain s2 u2 where 2: "upload_folder sample_downloader sample_env folder_there_state
      [''games'', ''Foo''] = (s2, u2)"
    by fastforce
  from upload_folder_atomic [OF c 1 nm refl refl] ex
  have a: "\<not> u1 \<and> remote s1 ''Foo'' = None \<and> remote s1 ''Foo.uploading'' = None \<and>
        issued s1 = [RmRf ''Foo.uploading'', ScpR [''games'', ''Foo''] ''Foo.uploading'',
                      Mv ''Foo.uploading'' ''Foo'', RmRf ''Foo.uploading'']"
    by (simp add: st rename_fails_env_def sample_env_def)
  from upload_folder_atomic [OF c 2 nm refl refl] ex
  have b: "u2 \<and> remote s2 ''Foo.uploading'' = None \<and>
        remote s2 ''Foo'' = Some (subtree (files folder_there_state) [''games'', ''Foo''])"
    by (simp add: st sample_env_def)
  from a b show ?thesis
    by (simp add: 1 2)
qed

section \<open>download_file\<close>

lemma py_split_no_sep: "c \<notin> set t \<Longrightarrow> py_split [c] t = [t]"
  by (induction t) auto

lemma py_split_append_tail:
  "c \<notin> set t \<Longrightarrow>
   py_split [c] (s @ t) = butlast (py_split [c] s) @ [last (py_split [c] s) @ t]"
proof (induction s)
  case Nil
  then show ?case by (simp add: py_split_no_sep)
next
  case (Cons a s)
  obtain l ls where p: "py_split [c] s = l # ls"
    using py_split_nonempty [of "[c]" s] by (cases "py_split [c] s") auto
  obtain l' ls' where p': "py_split [c] (s @ t) = l' # ls'"
    using py_split_nonempty [of "[c]" "s @ t"] by (cases "py_split [c] (s @ t)") auto
  from Cons p p' show ?case
    by (cases ls) (auto split: if_splits)
qed

lemma py_path_append_tail:
  assumes "CHR ''/'' \<notin> set t" and "t \<noteq> []" and "\<And>l. l @ t \<noteq> ''.''"
  shows "py_path (s @ t) \<noteq> py_path s"
proof -
  define P where "P = py_split ''/'' s"
  define ok where "ok = (\<lambda>c :: string. c \<noteq> [] \<and> c \<noteq> ''.'')"
  have sp: "py_split ''/'' (s @ t) = butlast P @ [last P @ t]"
    using py_split_append_tail [OF assms(1), of s] by (simp add: P_def)
  have Pn: "P \<noteq> []"
    by (simp add: P_def py_split_nonempty)
  have f1: "filter ok (py_split ''/'' (s @ t)) = filter ok (butlast P) @ [last P @ t]"
    using assms(2,3) by (simp add: sp ok_def)
  have "filter ok P = filter ok (butlast P @ [last P])"
    using Pn by simp
  then have f2: "filter ok P = filter ok (butlast P) @ (if ok (last P) then [last P] else [])"
    by simp
  have ne: "filter ok (py_split ''/'' (s @ t)) \<noteq> filter ok P"
    using assms(2) by (auto simp: f1 f2)
  have pre: "prefix ''/'' (s @ t) = prefix ''/'' s"
    using assms(1) by (cases s; cases t) auto
  show ?thesis
    using ne pre
    by (auto simp: py_path_def Let_def P_def [symmetric] ok_def [symmetric])
qed

lemma downloading_path_differs:
  "path_join d (filename @ ''.downloading'') \<noteq> path_join d filename"
proof -
  have a: "py_path (filename @ ''.downloading'') \<noteq> py_path filename"
    by (rule py_path_append_tail) (auto simp: append_eq_Cons_conv)
  have pre: "prefix ''/'' (filename @ ''.downloading'') = prefix ''/'' filename"
    by (cases filename) auto
  show ?thesis
    using a by (simp add: path_join_def pre)
qed

lemma not_dir_not_anchor: "\<not> is_dir fs p \<Longrightarrow> \<not> is_anchor p"
  by (auto simp: is_dir_def node_at_def)

lemma download_failed_effect:
  assumes "\<not> is_dir (files st) temp"
  shows "\<exists>st'. download_failed st url temp = Inr (st', None) \<and>
           files st' = (files st)(temp := None) \<and>
           ErrorDownloading url \<in> set (printed st')"
proof -
  have na: "\<not> is_anchor temp"
    using assms by (rule not_dir_not_anchor)
  show ?thesis
  proof (cases "path_exists (files st) temp")
    case True
    with assms na obtain d where "files st temp = Some (File d)"
      by (auto simp: path_exists_def is_dir_def node_at_def) (metis node.exhaust)
    with True na show ?thesis
      by (simp add: download_failed_def unlink_def node_at_def pr_def)
  next
    case False
    with na have "files st temp = None"
      by (simp add: path_exists_def node_at_def)
    then have "(files st)(temp := None) = files st"
      by auto
    with False show ?thesis
      by (simp add: download_failed_def pr_def)
  qed
qed

lemma urlretrieve_effect:
  assumes "urlretrieve E fs url temp = (fs1, retrieved)"
  shows "(fs1 = fs \<or> (\<exists>d. fs1 = fs(temp \<mapsto> File d) \<and> \<not> is_dir fs temp)) \<and>
         (retrieved \<longrightarrow> (\<exists>d. fetch E url = Fetched d \<and> fs1 = fs(temp \<mapsto> File d) \<and>
                               \<not> is_dir fs temp)) \<and>
         (\<forall>d. fetch E url = Fetched d \<and> is_dir fs (path_parent temp) \<and> \<not> is_dir fs temp \<longrightarrow>
              retrieved)"
  using assms
  by (auto simp: urlretrieve_def write_file_def split: fetch_result.splits option.splits if_splits)

lemma download_file_effect:
  assumes "filepath = path_join (download_dir D) filename"
    and "temp = path_join (download_dir D) (filename @ ''.downloading'')"
    and "\<not> is_dir (files st) temp"
  shows "\<exists>st' result. download_file D E st url filename = Inr (st', result) \<and>
           files st' temp = None \<and>
           (\<forall>q. q \<noteq> temp \<and> q \<noteq> filepath \<longrightarrow> files st' q = files st q) \<and>
           (\<forall>p. result = Some p \<longrightarrow>
              p = filepath \<and>
              (\<exists>d. fetch E url = Fetched d \<and> files st' filepath = Some (File d))) \<and>
           (result = None \<longrightarrow>
              files st' filepath = files st filepath \<and>
              ErrorDownloading url \<in> set (printed st')) \<and>
           ((\<exists>d. fetch E url = Fetched d) \<and> is_dir (files st) (path_parent temp) \<and>
            is_dir (files st) (path_parent filepath) \<and> \<not> is_dir (files st) filepath \<longrightarrow>
              result = Some filepath) \<and>
           ((\<exists>part. fetch E url = FetchFailed part) \<longrightarrow> result = None)"
proof -
  have ne: "temp \<noteq> filepath"
    unfolding assms(1,2) by (rule downloading_path_differs)
  have na: "\<not> is_anchor temp"
    using assms(3) by (rule not_dir_not_anchor)
  obtain fs1 retrieved where ur: "urlretrieve E (files st) url temp = (fs1, retrieved)"
    by fastforce
  note eu = urlretrieve_effect [OF ur]
  have nd1: "\<not> is_dir fs1 temp"
    using eu assms(3) na by (auto simp: is_dir_def node_at_def)
  have df: "download_file D E st url filename =
      (if retrieved then
         (case rename_file fs1 temp filepath of
            Inr fs2 \<Rightarrow> Inr (st\<lparr>files := fs2\<rparr>, Some filepath)
          | Inl e \<Rightarrow> download_failed (st\<lparr>files := fs1\<rparr>) url temp)
       else download_failed (st\<lparr>files := fs1\<rparr>) url temp)"
    by (simp add: download_file_def assms(1,2) [symmetric] ur)
  have nf: "\<not> (\<exists>d. fetch E url = Fetched d) \<Longrightarrow> \<not> retrieved"
    using eu by auto
  show ?thesis
  proof (cases "retrieved \<and> (\<exists>fs2. rename_file fs1 temp filepath = Inr fs2)")
    case True
    then obtain fs2 where rn: "rename_file fs1 temp filepath = Inr fs2"
      by blast
    from True eu obtain d where d: "fetch E url = Fetched d" "fs1 = (files st)(temp \<mapsto> File d)"
      by auto
    from rn d na have fs2: "fs2 = ((files st)(temp := None))(filepath \<mapsto> File d)"
      by (auto simp: rename_file_def node_at_def split: if_splits)
    from True rn have r: "download_file D E st url filename = Inr (st\<lparr>files := fs2\<rparr>, Some filepath)"
      by (simp add: df)
    show ?thesis
      unfolding r using d ne by (simp add: fs2)
  next
    case False
    then have r: "download_file D E st url filename = download_failed (st\<lparr>files := fs1\<rparr>) url temp"
      by (auto simp: df split: sum.splits)
    from download_failed_effect [of "st\<lparr>files := fs1\<rparr>" temp url] nd1 obtain st' where
      f: "download_failed (st\<lparr>files := fs1\<rparr>) url temp = Inr (st', None)"
      and fl: "files st' = fs1(temp := None)"
      and pe: "ErrorDownloading url \<in> set (printed st')"
      by auto
    have same: "\<forall>q. q \<noteq> temp \<longrightarrow> fs1 q = files st q"
      using eu by auto
    have ok: "(\<exists>d. fetch E url = Fetched d) \<and> is_dir (files st) (path_parent temp) \<and>
            is_dir (files st) (path_parent filepath) \<and> \<not> is_dir (files st) filepath \<Longrightarrow> False"
    proof -
      assume h: "(\<exists>d. fetch E url = Fetched d) \<and> is_dir (files st) (path_parent temp) \<and>
            is_dir (files st) (path_parent filepath) \<and> \<not> is_dir (files st) filepath"
      then obtain d where d: "fetch E url = Fetched d" by blast
      with h eu assms(3) have rt: retrieved and fs1: "fs1 = (files st)(temp \<mapsto> File d)"
        by auto
      have pt: "path_parent filepath \<noteq> temp"
        using h assms(3) by auto
      have "is_dir fs1 (path_parent filepath) \<and> \<not> is_dir fs1 filepath"
        using h pt ne by (auto simp: fs1 is_dir_def node_at_def)
      then have "\<exists>fs2. rename_file fs1 temp filepath = Inr fs2"
        using na by (simp add: rename_file_def fs1 node_at_def)
      with rt False show False by blast
    qed
    show ?thesis
      unfolding r f using fl pe same ne ok nf
      by auto
  qed
qed



text \<open>
  What the caller does with the \<^verbatim>\<open>None\<close> of a failed download of a zip file: it passes it
  to \<^verbatim>\<open>extract_zip\<close>, which raises.
\<close>

lemma failed_zip_download_raises:
  assumes "\<exists>part. fetch E url = FetchFailed part" and "suffix ''.zip'' filename"
    and "\<not> path_exists (files st) (path_join (download_dir D) filename)"
    and "\<not> is_dir (files st) (path_join (download_dir D) (filename @ ''.downloading''))"
  shows "download_and_upload D E st url filename (path_join (download_dir D) filename) =
           Inl TypeError"
proof -
  from download_file_effect [OF refl refl assms(4), of E url] assms(1)
  obtain st' where "download_file D E st url filename = Inr (st', None)"
    by auto
  with assms(2,3) show ?thesis
    by (simp add: download_and_upload_def)
qed


end
